theory Spec2Isabelle
  imports Main "HOL-Library.AList"
begin

section \<open>JavaScript values\<close>

text \<open>
  The cells of a sheet and the fields of a request payload hold JavaScript scalars. A
  \<open>DateV\<close> is a Date object, identified by the text that \<open>String()\<close> gives for it.
  Numbers are the integers (the only test the code makes on a number is whether it is
  zero). Objects are association lists of their own properties, in insertion order;
  reading a property that is absent gives \<open>Undefined\<close> (the names of fields and
  headers are taken not to be names that every object inherits, such as
  \<open>constructor\<close>).
\<close>

datatype jsval = Undefined | Null | Bool bool | Num int | Str string | DateV string

definition digit_char :: "nat \<Rightarrow> char" where
  "digit_char n = ''0123456789'' ! n"

fun show_nat :: "nat \<Rightarrow> string" where
  "show_nat n = (if n < 10 then [digit_char n] else show_nat (n div 10) @ [digit_char (n mod 10)])"

declare show_nat.simps [simp del]

definition show_int :: "int \<Rightarrow> string" where
  "show_int i = (if i < 0 then CHR ''-'' # show_nat (nat (- i)) else show_nat (nat i))"

text \<open>\<open>String(v)\<close>.\<close>

fun js_String :: "jsval \<Rightarrow> string" where
  "js_String Undefined = ''undefined''"
| "js_String Null = ''null''"
| "js_String (Bool b) = (if b then ''true'' else ''false'')"
| "js_String (Num n) = show_int n"
| "js_String (Str s) = s"
| "js_String (DateV s) = s"

text \<open>The truth value of \<open>v\<close> in \<open>!v\<close> and \<open>v || d\<close>.\<close>

fun truthy :: "jsval \<Rightarrow> bool" where
  "truthy Undefined = False"
| "truthy Null = False"
| "truthy (Bool b) = b"
| "truthy (Num n) = (n \<noteq> 0)"
| "truthy (Str s) = (s \<noteq> [])"
| "truthy (DateV s) = True"

type_synonym obj = "(string \<times> jsval) list"

definition get_prop :: "obj \<Rightarrow> string \<Rightarrow> jsval" where
  "get_prop ob k = (case map_of ob k of None \<Rightarrow> Undefined | Some v \<Rightarrow> v)"

definition put :: "obj \<Rightarrow> string \<Rightarrow> jsval \<Rightarrow> obj" where
  "put ob k v = AList.update k v ob"

definition keys :: "obj \<Rightarrow> string list" where
  "keys ob = map fst ob"

text \<open>\<open>xs[i]\<close>: reading past the end of an array gives \<open>undefined\<close>.\<close>

definition nth_js :: "jsval list \<Rightarrow> nat \<Rightarrow> jsval" where
  "nth_js xs i = (if i < length xs then xs ! i else Undefined)"

text \<open>\<open>xs.indexOf(x)\<close>, with \<open>None\<close> for \<open>-1\<close>.\<close>

fun indexOf :: "'a list \<Rightarrow> 'a \<Rightarrow> nat option" where
  "indexOf [] x = None"
| "indexOf (y # ys) x = (if y = x then Some 0 else map_option Suc (indexOf ys x))"

section \<open>The row store (Code.gs)\<close>

text \<open>
  A sheet is the grid of values that \<open>getDataRange().getValues()\<close> returns, row 1 (the
  headers) first; a sheet without content is the empty list. The grid of a sheet is
  rectangular, and a cell holds the value that was written to it. \<open>setValue\<close> and
  \<open>deleteRow\<close> take the 1-based positions of the spreadsheet service.
\<close>

type_synonym row = "jsval list"

type_synonym sheet = "row list"

definition rectangular :: "sheet \<Rightarrow> bool" where
  "rectangular sh = (\<forall>r \<in> set sh. length r = length (hd sh))"

text \<open>
  The answers of the backend: \<open>{status: "success"}\<close>, \<open>{status: "success", data: {id}}\<close>,
  \<open>{status: "success", data: {patients, visits, studies, templates, users}}\<close>,
  \<open>{status: "error", message}\<close>, and \<open>{status: "error", message: e.toString()}\<close> for an
  exception \<open>e\<close> that the dispatcher catches.
\<close>

record dataset =
  d_patients :: "obj list"
  d_visits :: "obj list"
  d_studies :: "obj list"
  d_templates :: "obj list"
  d_users :: "obj list"

text \<open>
  What the runtime and the spreadsheet service throw: a property read on \<open>null\<close>
  (\<open>TypeError\<close>) and a range of zero columns (\<open>RangeException\<close>), which is what
  \<open>getRange(1, 1, 1, getLastColumn())\<close> asks for on a sheet without content.
\<close>

datatype exn = TypeError | RangeException

datatype response =
  Success | SuccessId jsval | SuccessData dataset | Error string | Thrown exn

definition setValue :: "sheet \<Rightarrow> nat \<Rightarrow> nat \<Rightarrow> jsval \<Rightarrow> sheet" where
  "setValue sh r c v = sh[r - 1 := (sh ! (r - 1))[c - 1 := v]]"

definition sheet_deleteRow :: "sheet \<Rightarrow> nat \<Rightarrow> sheet" where
  "sheet_deleteRow sh r = take (r - 1) sh @ drop r sh"

text \<open>
  The scan \<open>for (i = 1; i < data.length; i++) if (String(data[i][0]) === String(id))\<close>
  of \<open>updateRow\<close> and \<open>deleteRow\<close>: the index \<open>i\<close> of the first data row that matches.
\<close>

definition id_matches :: "jsval \<Rightarrow> row \<Rightarrow> bool" where
  "id_matches ident r = (js_String (nth_js r 0) = js_String ident)"

fun scan_rows :: "jsval \<Rightarrow> row list \<Rightarrow> nat \<Rightarrow> nat option" where
  "scan_rows ident [] i = None"
| "scan_rows ident (r # rs) i = (if id_matches ident r then Some i else scan_rows ident rs (Suc i))"

definition findRow :: "sheet \<Rightarrow> jsval \<Rightarrow> nat option" where
  "findRow sh ident = scan_rows ident (tl sh) 1"

definition write_column :: "row \<Rightarrow> obj \<Rightarrow> nat \<Rightarrow> string \<Rightarrow> sheet \<Rightarrow> sheet" where
  "write_column headers updates rowIndex key sh =
     (case indexOf headers (Str key) of
        None \<Rightarrow> sh
      | Some colIndex \<Rightarrow> setValue sh rowIndex (colIndex + 1) (get_prop updates key))"

definition updateRow :: "sheet \<Rightarrow> jsval \<Rightarrow> obj \<Rightarrow> sheet \<times> response" where
  "updateRow sh ident updates =
     (case findRow sh ident of
        None \<Rightarrow> (sh, Error ''ID not found'')
      | Some i \<Rightarrow>
          (fold (write_column (nth sh 0) updates (i + 1)) (keys updates) sh, Success))"

definition deleteRow :: "sheet \<Rightarrow> jsval \<Rightarrow> sheet \<times> response" where
  "deleteRow sh ident =
     (case findRow sh ident of
        None \<Rightarrow> (sh, Error ''ID not found'')
      | Some i \<Rightarrow> (sheet_deleteRow sh (i + 1), Success))"

text \<open>
  \<open>createRow\<close>. \<open>rnd\<close> is the value of \<open>Math.floor(Math.random() * 100000)\<close> and
  \<open>now\<close> is \<open>new Date()\<close>.
\<close>

definition or_empty :: "jsval \<Rightarrow> jsval" where
  "or_empty v = (if truthy v then v else Str [])"

definition with_id :: "obj \<Rightarrow> string \<Rightarrow> nat \<Rightarrow> obj" where
  "with_id data prefix rnd =
     (if \<not> truthy (get_prop data ''id'')
      then put data ''id'' (Str (prefix @ ''-'' @ show_nat rnd)) else data)"

definition with_created_at :: "obj \<Rightarrow> string \<Rightarrow> obj" where
  "with_created_at data now =
     (if \<not> truthy (get_prop data ''created_at'')
      then put data ''created_at'' (DateV now) else data)"

definition createRow :: "sheet \<Rightarrow> obj \<Rightarrow> string \<Rightarrow> nat \<Rightarrow> string \<Rightarrow> exn + sheet \<times> response" where
  "createRow sh data prefix rnd now =
     (case sh of
        [] \<Rightarrow> Inl RangeException
      | headers # _ \<Rightarrow>
          (let data1 = with_id data prefix rnd;
               data2 = with_created_at data1 now;
               row = map (\<lambda>h. or_empty (get_prop data2 (js_String h))) headers
           in Inr (sh @ [row], SuccessId (get_prop data2 ''id''))))"

subsection \<open>Reading a sheet\<close>

text \<open>
  \<open>getSheetData\<close>: one object per data row, built by \<open>obj[headers[c]] = rows[i][c]\<close>
  for the columns in order, so that of two columns with the same header the later one
  gives the value.
\<close>

definition row_object :: "row \<Rightarrow> row \<Rightarrow> obj" where
  "row_object headers r =
     fold (\<lambda>c ob. put ob (js_String (headers ! c)) (nth_js r c)) [0..<length headers] []"

definition getSheetData :: "sheet option \<Rightarrow> obj list" where
  "getSheetData sheet =
     (case sheet of
        None \<Rightarrow> []
      | Some [] \<Rightarrow> []
      | Some (headers # rows) \<Rightarrow> map (row_object headers) rows)"

subsection \<open>The spreadsheet and its setup\<close>

type_synonym spreadsheet = "string \<Rightarrow> sheet option"

definition schema :: "(string \<times> string list) list" where
  "schema =
    [(''Patients'', [''id'', ''full_name'', ''dob'', ''age'', ''gender'', ''phone'', ''diagnosis'',
        ''complaint'', ''medical_history'', ''allergies'', ''created_at'']),
     (''Visits'', [''id'', ''patient_id'', ''status'', ''check_in_time'', ''referrer_doctor'',
        ''assigned_doctor_id'', ''created_at'']),
     (''Studies'', [''id'', ''visit_id'', ''modality'', ''region'', ''study_name'', ''price'',
        ''status'', ''technician'', ''radiologist'', ''assigned_doctor_id'', ''report_content'',
        ''completed_at'', ''image_links'', ''created_at'']),
     (''Templates'', [''id'', ''modality'', ''region'', ''title'', ''content'', ''fields_json'',
        ''is_active'', ''created_at'']),
     (''Users'', [''id'', ''email'', ''full_name'', ''role'', ''pin'', ''created_at''])]"

text \<open>
  The function \<open>setup\<close> of Code.gs is \<open>setup_schema\<close> here. The header row of a new
  sheet, and the default administrator of the Users sheet:
\<close>

definition init_sheet :: "string \<Rightarrow> string list \<Rightarrow> string \<Rightarrow> sheet" where
  "init_sheet sheetName desired now =
     map Str desired #
     (if sheetName = ''Users''
      then [[Str ''USR-ADMIN'', Str ''admin@center.com'', Str ''System Admin'', Str ''Admin'',
             Str ''1234'', DateV now]]
      else [])"

text \<open>
  Schema migration: every desired header that the header row lacks is written in a new
  column to the right; the cells of the data rows in the new columns are empty.
\<close>

definition migrate :: "sheet \<Rightarrow> string list \<Rightarrow> sheet" where
  "migrate sh desired =
     (case sh of
        [] \<Rightarrow> []
      | currentHeaders # rows \<Rightarrow>
          (let missing = filter (\<lambda>header. Str header \<notin> set currentHeaders) desired
           in (currentHeaders @ map Str missing)
              # map (\<lambda>r. r @ replicate (length missing) (Str [])) rows))"

definition setup_sheet :: "string \<Rightarrow> string list \<Rightarrow> string \<Rightarrow> sheet option \<Rightarrow> sheet" where
  "setup_sheet sheetName desired now found =
     (let sheet = (case found of None \<Rightarrow> [] | Some sh \<Rightarrow> sh)
      in if sheet = [] then init_sheet sheetName desired now
         else if sheetName = ''Users'' \<and> nth_js (sheet ! 0) 0 = Str ''email''
         then init_sheet sheetName desired now
         else migrate sheet desired)"

definition setup_schema :: "spreadsheet \<Rightarrow> string \<Rightarrow> spreadsheet" where
  "setup_schema ss now =
     fold (\<lambda>(sheetName, desired) s. s(sheetName \<mapsto> setup_sheet sheetName desired now (s sheetName)))
       schema ss"

definition getAllData :: "spreadsheet \<Rightarrow> response" where
  "getAllData ss =
     SuccessData \<lparr>d_patients = getSheetData (ss ''Patients''),
                  d_visits = getSheetData (ss ''Visits''),
                  d_studies = getSheetData (ss ''Studies''),
                  d_templates = getSheetData (ss ''Templates''),
                  d_users = getSheetData (ss ''Users'')\<rparr>"

subsection \<open>The dispatcher\<close>

text \<open>
  \<open>handleRequest\<close>, for the actions whose payload is an object of scalars
  (\<open>updateImageLinks\<close>, which serialises an array, is left out); \<open>Act_other\<close> is
  an action name that no case of the switch matches. The payload is
  \<open>None\<close> when the request has no body that parses. What a request draws from its
  environment: \<open>e_rnd\<close> is \<open>Math.floor(Math.random() * 100000)\<close>, \<open>e_now\<close> is
  \<open>new Date()\<close> and \<open>e_now_iso\<close> is \<open>new Date().toISOString()\<close>.
\<close>

datatype action =
  Act_getAllData | Act_createPatient | Act_createVisit | Act_createStudy | Act_createUser | Act_updateStudyStatus
  | Act_saveReport | Act_markComplete | Act_saveTemplate | Act_deleteTemplate | Act_other

record env =
  e_rnd :: nat
  e_now :: string
  e_now_iso :: string

definition on_sheet ::
  "spreadsheet \<Rightarrow> string \<Rightarrow> (sheet \<Rightarrow> exn + sheet \<times> response) \<Rightarrow> exn + spreadsheet \<times> response" where
  "on_sheet ss sheetName f =
     (case ss sheetName of
        None \<Rightarrow> Inl TypeError
      | Some sh \<Rightarrow>
          (case f sh of
             Inl e \<Rightarrow> Inl e
           | Inr (sh', r) \<Rightarrow> Inr (ss(sheetName \<mapsto> sh'), r)))"

definition create_in :: "spreadsheet \<Rightarrow> string \<Rightarrow> obj option \<Rightarrow> string \<Rightarrow> env \<Rightarrow> exn + spreadsheet \<times> response" where
  "create_in ss sheetName payload prefix e =
     on_sheet ss sheetName
       (\<lambda>sh. case sh of
                [] \<Rightarrow> Inl RangeException
              | _ \<Rightarrow> (case payload of
                        None \<Rightarrow> Inl TypeError
                      | Some data \<Rightarrow> createRow sh data prefix (e_rnd e) (e_now e)))"

definition update_in :: "spreadsheet \<Rightarrow> string \<Rightarrow> jsval \<Rightarrow> obj \<Rightarrow> exn + spreadsheet \<times> response" where
  "update_in ss sheetName ident updates = on_sheet ss sheetName (\<lambda>sh. Inr (updateRow sh ident updates))"

definition delete_in :: "spreadsheet \<Rightarrow> string \<Rightarrow> jsval \<Rightarrow> exn + spreadsheet \<times> response" where
  "delete_in ss sheetName ident = on_sheet ss sheetName (\<lambda>sh. Inr (deleteRow sh ident))"

fun dispatch :: "spreadsheet \<Rightarrow> action \<Rightarrow> obj option \<Rightarrow> env \<Rightarrow> exn + spreadsheet \<times> response" where
  "dispatch ss Act_getAllData payload e = (let ss' = setup_schema ss (e_now e) in Inr (ss', getAllData ss'))"
| "dispatch ss Act_createPatient payload e = create_in ss ''Patients'' payload ''PT'' e"
| "dispatch ss Act_createVisit payload e = create_in ss ''Visits'' payload ''VS'' e"
| "dispatch ss Act_createStudy payload e = create_in ss ''Studies'' payload ''ST'' e"
| "dispatch ss Act_createUser payload e = create_in ss ''Users'' payload ''USR'' e"
| "dispatch ss Act_updateStudyStatus None e = Inl TypeError"
| "dispatch ss Act_updateStudyStatus (Some p) e =
     update_in ss ''Studies'' (get_prop p ''id'') [(''status'', get_prop p ''status'')]"
| "dispatch ss Act_saveReport None e = Inl TypeError"
| "dispatch ss Act_saveReport (Some p) e =
     update_in ss ''Studies'' (get_prop p ''study_id'')
       [(''report_content'', get_prop p ''content_html''), (''status'', Str ''Reported'')]"
| "dispatch ss Act_markComplete None e = Inl TypeError"
| "dispatch ss Act_markComplete (Some p) e =
     update_in ss ''Studies'' (get_prop p ''study_id'')
       [(''status'', Str ''Completed''), (''completed_at'', Str (e_now_iso e))]"
| "dispatch ss Act_saveTemplate None e = Inl TypeError"
| "dispatch ss Act_saveTemplate (Some p) e =
     (if truthy (get_prop p ''id'') then update_in ss ''Templates'' (get_prop p ''id'') p
      else create_in ss ''Templates'' (Some p) ''TPL'' e)"
| "dispatch ss Act_deleteTemplate None e = Inl TypeError"
| "dispatch ss Act_deleteTemplate (Some p) e = delete_in ss ''Templates'' (get_prop p ''id'')"
| "dispatch ss Act_other payload e = Inr (ss, Error ''Unknown Action'')"

definition handleRequest :: "spreadsheet \<Rightarrow> action \<Rightarrow> obj option \<Rightarrow> env \<Rightarrow> spreadsheet \<times> response" where
  "handleRequest ss a payload e =
     (case dispatch ss a payload e of Inl ex \<Rightarrow> (ss, Thrown ex) | Inr res \<Rightarrow> res)"

section \<open>The client (app.js)\<close>

text \<open>
  Application State. A session user is a staff user of the Users collection or the
  session object that a patient login builds; the fields one of them lacks are
  \<open>None\<close>. A page is a string or \<open>undefined\<close> (\<open>None\<close>).
\<close>

record user =
  u_id :: string
  u_full_name :: string
  u_role :: string
  u_email :: "string option"
  u_pin :: "string option"
  u_phone :: "string option"

record patient =
  p_id :: string
  p_full_name :: string
  p_phone :: string

record visit =
  v_id :: string
  v_patient_id :: string
  v_referrer_doctor :: string
  v_check_in_time :: string
  v_assigned_doctor_id :: string
  v_status :: string
  v_created_at :: string

record study =
  s_id :: string
  s_visit_id :: string
  s_modality :: string
  s_region :: string
  s_study_name :: string
  s_assigned_doctor_id :: string
  s_price :: int
  s_status :: string
  s_created_at :: string
  s_completed_at :: "string option"

record queued =
  q_modality :: string
  q_region :: string
  q_study_name :: string

record app_state =
  st_user :: "user option"
  st_users :: "user list"
  st_patients :: "patient list"
  st_visits :: "visit list"
  st_studies :: "study list"
  currentView :: "string option"
  tempQueue :: "queued list"
  activeTab :: string

text \<open>
  What a controller does besides changing Application State, in the order in which it
  does it. \<open>Api\<close> is a request handed to the API client; \<open>ApiThen\<close> are the requests
  that are sent once the request before them has been answered.
\<close>

datatype api_call =
  CreateVisit visit | CreateStudy study | UpdateStudyStatus string string
  | SaveReport string string | MarkComplete string

datatype effect =
  Alert string | Warn string | ShowLogin | Redirect "string option" | Render string | NavHidden bool
  | StoreSession user | UpdateUserDisplay | CloseModal | Toast | Api api_call
  | ApiThen "api_call list" | Uncaught exn | Print

subsection \<open>Role-based access\<close>

definition permissions :: "(string \<times> string list) list" where
  "permissions =
    [(''Reception'', [''reception'']),
     (''Technician'', [''technician'']),
     (''Radiologist'', [''reception'', ''technician'', ''radiologist'']),
     (''Admin'', [''reception'', ''technician'', ''radiologist'', ''admin'']),
     (''Patient'', [''patient-portal''])]"

text \<open>
  The table is an object literal, and \<open>permissions[role]\<close> reads it with its prototype
  chain: the list of the role when the table has the role, a member of
  \<open>Object.prototype\<close> (a function or an object, never an array) when the role is the
  name of one, and \<open>undefined\<close> (\<open>None\<close>) otherwise.
\<close>

datatype entry = Pages "string list" | Inherited

definition object_prototype_names :: "string list" where
  "object_prototype_names =
    [''constructor'', ''__defineGetter__'', ''__defineSetter__'', ''hasOwnProperty'',
     ''__lookupGetter__'', ''__lookupSetter__'', ''isPrototypeOf'', ''propertyIsEnumerable'',
     ''toString'', ''valueOf'', ''__proto__'', ''toLocaleString'']"

definition permissions_at :: "string \<Rightarrow> entry option" where
  "permissions_at role =
     (case map_of permissions role of
        Some ps \<Rightarrow> Some (Pages ps)
      | None \<Rightarrow> if role \<in> set object_prototype_names then Some Inherited else None)"

text \<open>
  \<open>canAccess\<close>: \<open>allowed.includes(page)\<close> throws a TypeError when \<open>allowed\<close> is an
  inherited member, which has no \<open>includes\<close>.
\<close>

definition canAccess :: "string \<Rightarrow> string option \<Rightarrow> exn + bool" where
  "canAccess role page =
     (let allowed = (case permissions_at role of None \<Rightarrow> Pages [] | Some v \<Rightarrow> v)
      in case allowed of
           Pages ps \<Rightarrow> Inr (case page of None \<Rightarrow> False | Some p \<Rightarrow> p \<in> set ps)
         | Inherited \<Rightarrow> Inl TypeError)"

text \<open>
  \<open>getDefaultPage\<close>: \<open>pages[0]\<close> is \<open>undefined\<close> for an empty list and for an
  inherited member.
\<close>

definition getDefaultPage :: "string \<Rightarrow> string option" where
  "getDefaultPage role =
     (let pages = (case permissions_at role of None \<Rightarrow> Pages [''reception''] | Some v \<Rightarrow> v)
      in case pages of
           Pages [] \<Rightarrow> None
         | Pages (p # _) \<Rightarrow> Some p
         | Inherited \<Rightarrow> None)"

definition getAllowedPages :: "string \<Rightarrow> entry" where
  "getAllowedPages role = (case permissions_at role of None \<Rightarrow> Pages [] | Some v \<Rightarrow> v)"

definition actionPermissions :: "(string \<times> string list) list" where
  "actionPermissions =
    [(''createVisit'', [''Reception'', ''Admin'']),
     (''createPatient'', [''Reception'', ''Admin'']),
     (''startScan'', [''Technician'', ''Admin'']),
     (''completeScan'', [''Technician'', ''Admin'']),
     (''writeReport'', [''Radiologist'', ''Admin'']),
     (''markComplete'', [''Radiologist'', ''Admin'']),
     (''manageUsers'', [''Admin'']),
     (''viewAllPatients'', [''Radiologist'', ''Admin''])]"

definition hasPermission :: "app_state \<Rightarrow> string \<Rightarrow> bool" where
  "hasPermission st act =
     (case st_user st of
        None \<Rightarrow> False
      | Some u \<Rightarrow>
          (let allowed = (case map_of actionPermissions act of None \<Rightarrow> [] | Some rs \<Rightarrow> rs)
           in u_role u \<in> set allowed))"

subsection \<open>The router\<close>

text \<open>The text of a page in a message: \<open>undefined\<close> prints as its name.\<close>

definition page_text :: "string option \<Rightarrow> string" where
  "page_text page = (case page of None \<Rightarrow> ''undefined'' | Some p \<Rightarrow> p)"

definition denied :: "string \<Rightarrow> string option \<Rightarrow> string" where
  "denied role page = ''Access denied: '' @ role @ '' cannot access '' @ page_text page"

text \<open>The \<open>switch (page)\<close> of \<open>navigate\<close>: the controller of the page renders it.\<close>

definition render_page :: "string option \<Rightarrow> effect list" where
  "render_page page =
     (case page of
        None \<Rightarrow> []
      | Some p \<Rightarrow>
          if p \<in> set [''reception'', ''technician'', ''radiologist'', ''admin'', ''patient-portal'']
          then [Render p] else [])"

text \<open>
  \<open>navigate\<close>. An exception of \<open>canAccess\<close> is not caught: it ends the call, and the
  calls around it.
\<close>

function navigate :: "app_state \<Rightarrow> string option \<Rightarrow> app_state \<times> effect list" where
  "navigate st page =
     (case st_user st of
        None \<Rightarrow> (st, [ShowLogin])
      | Some u \<Rightarrow>
          (case canAccess (u_role u) page of
             Inl ex \<Rightarrow> (st, [Uncaught ex])
           | Inr allowed \<Rightarrow>
               if \<not> allowed
               then (if page \<noteq> getDefaultPage (u_role u)
                     then (case navigate st (getDefaultPage (u_role u)) of
                             (st', es) \<Rightarrow>
                               (st', Warn (denied (u_role u) page)
                                     # Redirect (getDefaultPage (u_role u)) # es))
                     else (st, [Warn (denied (u_role u) page)]))
               else (st\<lparr>currentView := page\<rparr>,
                     render_page page @ [NavHidden (u_role u = ''Patient'')])))"
  by pat_completeness auto
termination
  by (relation "measure (\<lambda>(st, page).
        case st_user st of None \<Rightarrow> 0
        | Some u \<Rightarrow> if page = getDefaultPage (u_role u) then 0 else 1)") auto

declare navigate.simps [simp del]

subsection \<open>Patient login\<close>








subsection \<open>Creating a visit\<close>

text \<open>
  What the creation of one entity draws from its environment: \<open>d_time\<close> is \<open>Date.now()\<close>,
  \<open>d_random\<close> is \<open>Math.floor(Math.random() * 1000)\<close> and \<open>d_iso\<close> is
  \<open>new Date().toISOString()\<close>.
\<close>

record draw =
  d_time :: nat
  d_random :: nat
  d_iso :: string

definition generateId :: "string \<Rightarrow> draw \<Rightarrow> string" where
  "generateId prefix d = prefix @ ''-'' @ show_nat (d_time d) @ ''-'' @ show_nat (d_random d)"

definition new_study :: "string \<Rightarrow> string \<Rightarrow> draw \<Rightarrow> queued \<Rightarrow> study" where
  "new_study visitId assignedDoctorId d s =
     \<lparr>s_id = generateId ''ST'' d, s_visit_id = visitId, s_modality = q_modality s,
      s_region = q_region s, s_study_name = q_study_name s,
      s_assigned_doctor_id = assignedDoctorId, s_price = 0, s_status = ''Waiting'',
      s_created_at = d_iso d, s_completed_at = None\<rparr>"

text \<open>
  \<open>saveVisit\<close>. \<open>patientId\<close>, \<open>assignedDoctorId\<close> and \<open>visitDate\<close> are the values of the
  form; \<open>vdraw\<close> is what the visit draws and \<open>sdraws i\<close> what the \<open>i\<close>-th queued study
  draws. The requests for the studies are sent when the request for the visit has been
  answered.
\<close>

definition saveVisit ::
  "app_state \<Rightarrow> string \<Rightarrow> string \<Rightarrow> string \<Rightarrow> draw \<Rightarrow> (nat \<Rightarrow> draw) \<Rightarrow> app_state \<times> effect list" where
  "saveVisit st patientId assignedDoctorId visitDate vdraw sdraws =
     (if \<not> hasPermission st ''createVisit''
      then (st, [Alert ''Access Denied: You don't have permission to create visits.''])
      else if patientId = [] then (st, [Alert ''Select a patient''])
      else if assignedDoctorId = [] then (st, [Alert ''Select a doctor''])
      else if tempQueue st = [] then (st, [Alert ''Add at least one study''])
      else
        (let visitId = generateId ''VS'' vdraw;
             visitData = \<lparr>v_id = visitId, v_patient_id = patientId, v_referrer_doctor = [],
                          v_check_in_time = visitDate, v_assigned_doctor_id = assignedDoctorId,
                          v_status = ''In Progress'', v_created_at = d_iso vdraw\<rparr>;
             st1 = st\<lparr>st_visits := st_visits st @ [visitData]\<rparr>;
             newStudies = map (\<lambda>(i, s). new_study visitId assignedDoctorId (sdraws i) s)
                            (enumerate 0 (tempQueue st));
             st2 = st1\<lparr>st_studies := st_studies st1 @ newStudies\<rparr>
         in (case navigate st2 (Some ''reception'') of
               (st3, es) \<Rightarrow>
                 (st3\<lparr>tempQueue := []\<rparr>,
                  CloseModal # es @ [Toast, Api (CreateVisit visitData),
                                     ApiThen (map CreateStudy newStudies)]))))"

subsection \<open>The study workflow\<close>

text \<open>
  \<open>const s = studies.find(x => x.id === id); if (s) s.field = v\<close>: the first element
  that satisfies the test is changed in place.
\<close>

fun update_first :: "('a \<Rightarrow> bool) \<Rightarrow> ('a \<Rightarrow> 'a) \<Rightarrow> 'a list \<Rightarrow> 'a list" where
  "update_first P f [] = []"
| "update_first P f (x # xs) = (if P x then f x # xs else x # update_first P f xs)"

definition startScan :: "app_state \<Rightarrow> string \<Rightarrow> bool \<Rightarrow> app_state \<times> effect list" where
  "startScan st ident confirmed =
     (if \<not> hasPermission st ''startScan''
      then (st, [Alert ''Access Denied: You don't have permission to start scans.''])
      else if \<not> confirmed then (st, [])
      else (st\<lparr>st_studies := update_first (\<lambda>x. s_id x = ident) (\<lambda>s. s\<lparr>s_status := ''Scanning''\<rparr>)
                                 (st_studies st)\<rparr>,
            [Render ''technician'', Api (UpdateStudyStatus ident ''Scanning'')]))"

definition completeScan :: "app_state \<Rightarrow> string \<Rightarrow> bool \<Rightarrow> app_state \<times> effect list" where
  "completeScan st ident confirmed =
     (if \<not> hasPermission st ''completeScan''
      then (st, [Alert ''Access Denied: You don't have permission to complete scans.''])
      else if \<not> confirmed then (st, [])
      else (st\<lparr>st_studies := update_first (\<lambda>x. s_id x = ident) (\<lambda>s. s\<lparr>s_status := ''Reporting''\<rparr>)
                                 (st_studies st)\<rparr>,
            [Render ''technician'', Api (UpdateStudyStatus ident ''Reporting'')]))"

text \<open>
  \<open>markComplete\<close>. \<open>content\<close> is the markup of the editor, \<open>None\<close> when no editor is
  open (reading it then throws, after the study has been changed); \<open>nowIso\<close> is
  \<open>new Date().toISOString()\<close>. The steps after an \<open>await\<close> are those of a run in which
  the requests are answered.
\<close>

definition markComplete ::
  "app_state \<Rightarrow> string \<Rightarrow> bool \<Rightarrow> string option \<Rightarrow> string \<Rightarrow> app_state \<times> effect list" where
  "markComplete st studyId confirmed content nowIso =
     (if \<not> hasPermission st ''markComplete''
      then (st, [Alert ''Access Denied: You don't have permission to mark cases as complete.''])
      else if \<not> confirmed then (st, [])
      else
        (let st1 = st\<lparr>st_studies :=
                       update_first (\<lambda>s. s_id s = studyId)
                         (\<lambda>s. s\<lparr>s_status := ''Completed'', s_completed_at := Some nowIso\<rparr>)
                         (st_studies st)\<rparr>
         in case content of
              None \<Rightarrow> (st1, [Uncaught TypeError])
            | Some html \<Rightarrow>
                (st1\<lparr>activeTab := ''completed''\<rparr>,
                 [Api (SaveReport studyId html), ApiThen [MarkComplete studyId],
                  Render ''radiologist''])))"

text \<open>
  \<open>printReport\<close> of the radiologist, for the current study \<open>studyId\<close> and the markup
  \<open>content\<close> of the editor: the report is saved, which makes the backend set the status
  \<open>Reported\<close>; Application State is not changed.
\<close>

definition printReport :: "app_state \<Rightarrow> string \<Rightarrow> string \<Rightarrow> app_state \<times> effect list" where
  "printReport st studyId content = (st, [Api (SaveReport studyId content), Print])"

datatype click =
  Click_startScan string bool
  | Click_completeScan string bool
  | Click_markComplete string bool "string option" string
  | Click_printReport string string

fun perform :: "app_state \<Rightarrow> click \<Rightarrow> app_state \<times> effect list" where
  "perform st (Click_startScan ident confirmed) = startScan st ident confirmed"
| "perform st (Click_completeScan ident confirmed) = completeScan st ident confirmed"
| "perform st (Click_markComplete ident confirmed content nowIso) =
     markComplete st ident confirmed content nowIso"
| "perform st (Click_printReport ident content) = printReport st ident content"

definition run :: "app_state \<Rightarrow> click list \<Rightarrow> app_state" where
  "run st clicks = foldl (\<lambda>s c. fst (perform s c)) st clicks"







section \<open>Definitions for the statements\<close>

text \<open>The data rows of a sheet: every row after the header row.\<close>

definition data_rows :: "sheet \<Rightarrow> row list" where
  "data_rows sh = tl sh"

text \<open>The studies of an answer to \<open>getAllData\<close>.\<close>

definition response_studies :: "response \<Rightarrow> obj list" where
  "response_studies r = (case r of SuccessData d \<Rightarrow> d_studies d | _ \<Rightarrow> [])"

text \<open>What the writes of \<open>updateRow\<close> do to the row they are made in.\<close>

definition write_cell :: "row \<Rightarrow> obj \<Rightarrow> string \<Rightarrow> row \<Rightarrow> row" where
  "write_cell headers updates key r =
     (case indexOf headers (Str key) of None \<Rightarrow> r | Some c \<Rightarrow> r[c := get_prop updates key])"

text \<open>The id and the creation time of the row that \<open>createRow\<close> writes.\<close>

definition row_id :: "obj \<Rightarrow> string \<Rightarrow> nat \<Rightarrow> jsval" where
  "row_id data prefix rnd =
     (if truthy (get_prop data ''id'') then get_prop data ''id''
      else Str (prefix @ ''-'' @ show_nat rnd))"

definition row_created_at :: "obj \<Rightarrow> string \<Rightarrow> jsval" where
  "row_created_at data now =
     (if truthy (get_prop data ''created_at'') then get_prop data ''created_at'' else DateV now)"

definition studies_headers :: "string list" where
  "studies_headers = [''id'', ''visit_id'', ''modality'', ''region'', ''study_name'', ''price'',
        ''status'', ''technician'', ''radiologist'', ''assigned_doctor_id'', ''report_content'',
        ''completed_at'', ''image_links'', ''created_at'']"

definition missing_headers :: "row \<Rightarrow> string list \<Rightarrow> string list" where
  "missing_headers hs desired = filter (\<lambda>header. Str header \<notin> set hs) desired"

fun is_redirect :: "effect \<Rightarrow> bool" where
  "is_redirect (Redirect p) = True"
| "is_redirect e = False"

fun is_render :: "effect \<Rightarrow> bool" where
  "is_render (Render p) = True"
| "is_render e = False"


definition new_visit :: "string \<Rightarrow> string \<Rightarrow> string \<Rightarrow> draw \<Rightarrow> visit" where
  "new_visit patientId assignedDoctorId visitDate vdraw =
     \<lparr>v_id = generateId ''VS'' vdraw, v_patient_id = patientId, v_referrer_doctor = [],
      v_check_in_time = visitDate, v_assigned_doctor_id = assignedDoctorId,
      v_status = ''In Progress'', v_created_at = d_iso vdraw\<rparr>"

definition new_studies :: "string \<Rightarrow> string \<Rightarrow> (nat \<Rightarrow> draw) \<Rightarrow> queued list \<Rightarrow> study list" where
  "new_studies visitId assignedDoctorId sdraws queue =
     map (\<lambda>(i, s). new_study visitId assignedDoctorId (sdraws i) s) (enumerate 0 queue)"


section \<open>Example data\<close>

definition sheet0 :: sheet where
  "sheet0 = [[Str ''id'', Str ''visit_id'', Str ''status''],
             [Str ''ST-1'', Str ''VS-1'', Str ''Waiting''],
             [Str ''ST-2'', Str ''VS-1'', Str ''Reporting'']]"

definition env0 :: env where
  "env0 = \<lparr>e_rnd = 40213, e_now = ''Mon Nov 02 2026'', e_now_iso = ''2026-11-02T09:00:00.000Z''\<rparr>"

definition ss_dup :: spreadsheet where
  "ss_dup = Map.empty(''Studies'' \<mapsto>
     [[Str ''id'', Str ''status'', Str ''status''], [Str ''ST-1'', Str ''Waiting'', Str ''Waiting'']])"

definition ss_ok :: spreadsheet where
  "ss_ok = Map.empty(''Studies'' \<mapsto> sheet0)"

definition staff :: "string \<Rightarrow> user" where
  "staff role = \<lparr>u_id = ''USR-1'', u_full_name = ''Staff Member'', u_role = role,
     u_email = Some ''staff@center.com'', u_pin = Some ''1234'', u_phone = None\<rparr>"

definition state0 :: app_state where
  "state0 = \<lparr>st_user = None, st_users = [], st_patients = [], st_visits = [], st_studies = [],
     currentView = Some ''reception'', tempQueue = [], activeTab = ''reporting''\<rparr>"

definition signed_in :: "string \<Rightarrow> app_state" where
  "signed_in role = state0\<lparr>st_user := Some (staff role)\<rparr>"



definition queue0 :: "queued list" where
  "queue0 = [\<lparr>q_modality = ''US'', q_region = ''Abdomen'', q_study_name = ''US Abdomen''\<rparr>,
             \<lparr>q_modality = ''XR'', q_region = ''Chest'', q_study_name = ''Chest X-Ray''\<rparr>]"

definition draw0 :: "nat \<Rightarrow> draw" where
  "draw0 r = \<lparr>d_time = 1762074000000, d_random = r, d_iso = ''2026-11-02T09:00:00.000Z''\<rparr>"

definition at_desk :: "string \<Rightarrow> app_state" where
  "at_desk role = (signed_in role)\<lparr>tempQueue := queue0\<rparr>"





definition sheet_priced :: sheet where
  "sheet_priced = [[Str ''id'', Str ''visit_id'', Str ''price'', Str ''status''],
                   [Str ''ST-1'', Str ''VS-1'', Num 150, Str ''Waiting'']]"

section \<open>Record not found\<close>

lemma scan_rows_None: "scan_rows ident rs i = None \<longleftrightarrow> (\<forall>r \<in> set rs. \<not> id_matches ident r)"
  by (induction rs arbitrary: i) auto

lemma findRow_None: "findRow sh ident = None \<longleftrightarrow> (\<forall>r \<in> set (data_rows sh). \<not> id_matches ident r)"
  by (simp add: findRow_def data_rows_def scan_rows_None)

text \<open>
  C8. \<open>updateRow\<close> and \<open>deleteRow\<close> answer \<open>{status: "error", message: "ID not found"}\<close>
  exactly when no data row has a first column string-equal to the id; they then leave
  the sheet as it was; when a data row matches they answer \<open>{status: "success"}\<close>.
\<close>

theorem not_found_error:
  "(snd (updateRow sh ident updates) = Error ''ID not found'' \<longleftrightarrow>
      (\<forall>r \<in> set (data_rows sh). \<not> id_matches ident r))
   \<and> (snd (deleteRow sh ident) = Error ''ID not found'' \<longleftrightarrow>
      (\<forall>r \<in> set (data_rows sh). \<not> id_matches ident r))
   \<and> ((\<forall>r \<in> set (data_rows sh). \<not> id_matches ident r) \<longrightarrow>
        updateRow sh ident updates = (sh, Error ''ID not found'')
        \<and> deleteRow sh ident = (sh, Error ''ID not found''))
   \<and> ((\<exists>r \<in> set (data_rows sh). id_matches ident r) \<longrightarrow>
        snd (updateRow sh ident updates) = Success \<and> snd (deleteRow sh ident) = Success)"
proof (cases "findRow sh ident")
  case None
  then have "\<forall>r \<in> set (data_rows sh). \<not> id_matches ident r"
    by (simp add: findRow_None)
  with None show ?thesis
    by (simp add: updateRow_def deleteRow_def)
next
  case (Some i)
  then have "\<exists>r \<in> set (data_rows sh). id_matches ident r"
    using findRow_None [of sh ident] by auto
  with Some show ?thesis
    by (simp add: updateRow_def deleteRow_def)
qed

theorem not_found_error_witness:
  "updateRow sheet0 (Str ''ST-9'') [(''status'', Str ''Scanning'')] = (sheet0, Error ''ID not found'')
   \<and> deleteRow sheet0 (Str ''ST-9'') = (sheet0, Error ''ID not found'')
   \<and> snd (updateRow sheet0 (Str ''ST-2'') [(''status'', Str ''Scanning'')]) = Success
   \<and> snd (deleteRow sheet0 (Str ''ST-2'')) = Success"
proof -
  have absent: "\<forall>r \<in> set (data_rows sheet0). \<not> id_matches (Str ''ST-9'') r"
    by (simp add: sheet0_def data_rows_def id_matches_def nth_js_def)
  have present: "\<exists>r \<in> set (data_rows sheet0). id_matches (Str ''ST-2'') r"
    by (simp add: sheet0_def data_rows_def id_matches_def nth_js_def)
  from absent present
    not_found_error [of sheet0 "Str ''ST-9''" "[(''status'', Str ''Scanning'')]"]
    not_found_error [of sheet0 "Str ''ST-2''" "[(''status'', Str ''Scanning'')]"]
  show ?thesis by blast
qed

section \<open>The frame of updateRow\<close>

lemma indexOf_Some: "indexOf xs x = Some c \<Longrightarrow> c < length xs \<and> xs ! c = x"
  by (induction xs arbitrary: c) (auto split: if_splits)

lemma indexOf_first: "indexOf xs x = Some c \<Longrightarrow> j < c \<Longrightarrow> xs ! j \<noteq> x"
proof (induction xs arbitrary: c j)
  case Nil
  then show ?case by simp
next
  case (Cons y ys)
  then show ?case by (cases j) (auto split: if_splits)
qed

lemma indexOf_None: "indexOf xs x = None \<longleftrightarrow> x \<notin> set xs"
  by (induction xs) auto

lemma write_column_row:
  "write_column hs upd (Suc i) k sh = sh[i := write_cell hs upd k (sh ! i)]"
  by (simp add: write_column_def write_cell_def setValue_def split: option.split)

lemma fold_in_row:
  assumes "\<And>k s. f k s = s[i := g k (s ! i)]"
  shows "fold f ks sh = sh[i := fold g ks (sh ! i)]"
proof (induction ks arbitrary: sh)
  case Nil
  then show ?case by simp
next
  case (Cons k ks)
  have first: "f k sh = sh[i := g k (sh ! i)]" by (rule assms)
  have "fold f (k # ks) sh = fold f ks (f k sh)" by simp
  also have "\<dots> = fold f ks (sh[i := g k (sh ! i)])" by (rule arg_cong [OF first])
  also have "\<dots> = (sh[i := g k (sh ! i)])[i := fold g ks ((sh[i := g k (sh ! i)]) ! i)]"
    by (rule Cons.IH)
  also have "\<dots> = sh[i := fold g ks (g k (sh ! i))]"
    by (cases "i < length sh") (simp_all add: list_update_beyond)
  finally show ?case by simp
qed

lemma fold_write_column:
  "fold (write_column hs upd (Suc i)) ks sh = sh[i := fold (write_cell hs upd) ks (sh ! i)]"
  by (rule fold_in_row) (rule write_column_row)

lemma length_write_cell [simp]: "length (write_cell hs upd k r) = length r"
  by (simp add: write_cell_def split: option.split)

lemma length_fold_write_cell [simp]: "length (fold (write_cell hs upd) ks r) = length r"
  by (induction ks arbitrary: r) auto

lemma fold_write_cell_other:
  "\<forall>k \<in> set ks. indexOf hs (Str k) \<noteq> Some c \<Longrightarrow> fold (write_cell hs upd) ks r ! c = r ! c"
proof (induction ks arbitrary: r)
  case Nil
  then show ?case by simp
next
  case (Cons k ks)
  have "write_cell hs upd k r ! c = r ! c"
    using Cons.prems by (auto simp: write_cell_def split: option.split)
  with Cons show ?case by simp
qed

lemma fold_write_cell_written:
  "k \<in> set ks \<Longrightarrow> indexOf hs (Str k) = Some c \<Longrightarrow> c < length r \<Longrightarrow>
   fold (write_cell hs upd) ks r ! c = get_prop upd k"
proof (induction ks arbitrary: r)
  case Nil
  then show ?case by simp
next
  case (Cons k' ks)
  show ?case
  proof (cases "k \<in> set ks")
    case True
    with Cons show ?thesis by simp
  next
    case False
    with Cons.prems have k': "k' = k" by simp
    have other: "\<forall>j \<in> set ks. indexOf hs (Str j) \<noteq> Some c"
    proof
      fix j assume j: "j \<in> set ks"
      show "indexOf hs (Str j) \<noteq> Some c"
      proof
        assume "indexOf hs (Str j) = Some c"
        then have "hs ! c = Str j" by (simp add: indexOf_Some)
        moreover from Cons.prems have "hs ! c = Str k" by (simp add: indexOf_Some)
        ultimately show False using j False by simp
      qed
    qed
    have "fold (write_cell hs upd) ks (write_cell hs upd k r) ! c = write_cell hs upd k r ! c"
      using other by (rule fold_write_cell_other)
    also have "\<dots> = get_prop upd k"
      using Cons.prems by (simp add: write_cell_def)
    finally show ?thesis by (simp add: k')
  qed
qed

lemma scan_rows_Some:
  "scan_rows ident rs n = Some i \<Longrightarrow>
   n \<le> i \<and> i - n < length rs \<and> id_matches ident (rs ! (i - n))
   \<and> (\<forall>j < i - n. \<not> id_matches ident (rs ! j))"
proof (induction rs arbitrary: n)
  case Nil
  then show ?case by simp
next
  case (Cons r rs)
  show ?case
  proof (cases "id_matches ident r")
    case True
    with Cons.prems show ?thesis by simp
  next
    case False
    with Cons.prems have rec: "scan_rows ident rs (Suc n) = Some i" by simp
    from Cons.IH [OF rec] have ih: "Suc n \<le> i" "i - Suc n < length rs"
      "id_matches ident (rs ! (i - Suc n))" "\<forall>j < i - Suc n. \<not> id_matches ident (rs ! j)"
      by simp_all
    from ih(1) have eq: "i - n = Suc (i - Suc n)" by simp
    have "\<forall>j < i - n. \<not> id_matches ident ((r # rs) ! j)"
    proof (intro allI impI)
      fix j assume "j < i - n"
      then show "\<not> id_matches ident ((r # rs) ! j)"
        using False ih(4) eq by (cases j) auto
    qed
    with ih eq show ?thesis by simp
  qed
qed

lemma findRow_Some:
  assumes "findRow sh ident = Some i"
  shows "0 < i" and "i < length sh" and "id_matches ident (sh ! i)"
    and "\<forall>j. 0 < j \<and> j < i \<longrightarrow> \<not> id_matches ident (sh ! j)"
proof -
  from assms have s: "scan_rows ident (tl sh) 1 = Some i" by (simp add: findRow_def)
  note f = scan_rows_Some [OF s]
  from f show "0 < i" by simp
  from f have lt: "i - 1 < length (tl sh)" by simp
  then show len: "i < length sh" by simp
  from f have "id_matches ident (tl sh ! (i - 1))" by simp
  with lt \<open>0 < i\<close> show "id_matches ident (sh ! i)"
    by (cases sh) (simp_all add: nth_Cons')
  show "\<forall>j. 0 < j \<and> j < i \<longrightarrow> \<not> id_matches ident (sh ! j)"
  proof (intro allI impI)
    fix j assume j: "0 < j \<and> j < i"
    then have "j - 1 < i - 1" by linarith
    with f have "\<not> id_matches ident (tl sh ! (j - 1))" by simp
    with j len show "\<not> id_matches ident (sh ! j)"
      by (cases sh) (simp_all add: nth_Cons')
  qed
qed

lemma findRow_exists:
  "\<exists>r \<in> set (data_rows sh). id_matches ident r \<Longrightarrow> \<exists>i. findRow sh ident = Some i"
  using findRow_None [of sh ident] by (cases "findRow sh ident") auto

lemma updateRow_found:
  "findRow sh ident = Some i \<Longrightarrow>
   updateRow sh ident upd = (sh[i := fold (write_cell (sh ! 0) upd) (keys upd) (sh ! i)], Success)"
  by (simp add: updateRow_def fold_write_column)

text \<open>
  C7. When a data row's first column is string-equal to the id, \<open>updateRow\<close> writes in
  the first such row (row \<open>i\<close>) only: the sheet keeps its rows, every other row is as it
  was, row \<open>i\<close> keeps its length, a column of row \<open>i\<close> whose header is not the name of a
  field of the updates keeps its value, and the column that \<open>indexOf\<close> finds for a field
  holds that field's value.
\<close>

theorem updateRow_frame:
  assumes "\<exists>r \<in> set (data_rows sh). id_matches ident r"
  shows "\<exists>i. findRow sh ident = Some i \<and> 0 < i \<and> i < length sh \<and> id_matches ident (sh ! i)
      \<and> (\<forall>j. 0 < j \<and> j < i \<longrightarrow> \<not> id_matches ident (sh ! j))
      \<and> length (fst (updateRow sh ident updates)) = length sh
      \<and> (\<forall>r < length sh. r \<noteq> i \<longrightarrow> fst (updateRow sh ident updates) ! r = sh ! r)
      \<and> length (fst (updateRow sh ident updates) ! i) = length (sh ! i)
      \<and> (\<forall>c < length (sh ! i). nth_js (sh ! 0) c \<notin> Str ` set (keys updates) \<longrightarrow>
            fst (updateRow sh ident updates) ! i ! c = sh ! i ! c)
      \<and> (\<forall>k \<in> set (keys updates). \<forall>c < length (sh ! i).
            indexOf (sh ! 0) (Str k) = Some c \<longrightarrow>
            fst (updateRow sh ident updates) ! i ! c = get_prop updates k)"
proof -
  from assms obtain i where i: "findRow sh ident = Some i"
    using findRow_exists by blast
  note found = findRow_Some [OF i]
  let ?sh' = "fst (updateRow sh ident updates)"
  have upd: "?sh' = sh[i := fold (write_cell (sh ! 0) updates) (keys updates) (sh ! i)]"
    by (simp add: updateRow_found [OF i])
  have len: "length ?sh' = length sh" by (simp add: upd)
  have others: "\<forall>r < length sh. r \<noteq> i \<longrightarrow> ?sh' ! r = sh ! r" by (simp add: upd)
  have row: "?sh' ! i = fold (write_cell (sh ! 0) updates) (keys updates) (sh ! i)"
    using found(2) by (simp add: upd)
  have rowlen: "length (?sh' ! i) = length (sh ! i)" by (simp add: row)
  have kept: "\<forall>c < length (sh ! i). nth_js (sh ! 0) c \<notin> Str ` set (keys updates) \<longrightarrow>
      ?sh' ! i ! c = sh ! i ! c"
  proof (intro allI impI)
    fix c assume c: "c < length (sh ! i)" and h: "nth_js (sh ! 0) c \<notin> Str ` set (keys updates)"
    have "\<forall>k \<in> set (keys updates). indexOf (sh ! 0) (Str k) \<noteq> Some c"
    proof
      fix k assume k: "k \<in> set (keys updates)"
      show "indexOf (sh ! 0) (Str k) \<noteq> Some c"
      proof
        assume "indexOf (sh ! 0) (Str k) = Some c"
        then have "c < length (sh ! 0) \<and> (sh ! 0) ! c = Str k" by (rule indexOf_Some)
        then have "nth_js (sh ! 0) c = Str k" by (simp add: nth_js_def)
        with h k show False by auto
      qed
    qed
    then show "?sh' ! i ! c = sh ! i ! c"
      unfolding row by (rule fold_write_cell_other)
  qed
  have written: "\<forall>k \<in> set (keys updates). \<forall>c < length (sh ! i).
      indexOf (sh ! 0) (Str k) = Some c \<longrightarrow> ?sh' ! i ! c = get_prop updates k"
    unfolding row by (auto intro: fold_write_cell_written)
  from i found len others rowlen kept written show ?thesis by blast
qed

theorem updateRow_frame_witness:
  "findRow sheet0 (Str ''ST-2'') = Some 2
   \<and> fst (updateRow sheet0 (Str ''ST-2'') [(''status'', Str ''Scanning''), (''price'', Num 5)])
      = [[Str ''id'', Str ''visit_id'', Str ''status''],
         [Str ''ST-1'', Str ''VS-1'', Str ''Waiting''],
         [Str ''ST-2'', Str ''VS-1'', Str ''Scanning'']]"
proof -
  have present: "\<exists>r \<in> set (data_rows sheet0). id_matches (Str ''ST-2'') r"
    by (simp add: sheet0_def data_rows_def id_matches_def nth_js_def)
  from updateRow_frame [OF present, of "[(''status'', Str ''Scanning''), (''price'', Num 5)]"]
  have "length (fst (updateRow sheet0 (Str ''ST-2'')
      [(''status'', Str ''Scanning''), (''price'', Num 5)])) = length sheet0"
    by blast
  then show ?thesis
    by (simp add: sheet0_def updateRow_def findRow_def id_matches_def nth_js_def keys_def
        write_column_def setValue_def get_prop_def)
qed

section \<open>Creating a row\<close>

lemma get_prop_put: "get_prop (put ob k v) k' = (if k' = k then v else get_prop ob k')"
  by (simp add: get_prop_def put_def update_conv)

lemma get_prop_absent: "k \<notin> set (keys ob) \<Longrightarrow> get_prop ob k = Undefined"
  by (simp add: get_prop_def keys_def map_of_eq_None_iff [THEN iffD2])

lemma stamped_id:
  "get_prop (with_created_at (with_id data prefix rnd) now) ''id'' = row_id data prefix rnd"
  by (simp add: with_created_at_def with_id_def row_id_def get_prop_put)

lemma stamped_created_at:
  "get_prop (with_created_at (with_id data prefix rnd) now) ''created_at''
     = row_created_at data now"
  by (simp add: with_created_at_def with_id_def row_created_at_def get_prop_put)

lemma stamped_other:
  "k \<noteq> ''id'' \<Longrightarrow> k \<noteq> ''created_at'' \<Longrightarrow>
   get_prop (with_created_at (with_id data prefix rnd) now) k = get_prop data k"
  by (simp add: with_created_at_def with_id_def get_prop_put)

text \<open>
  C6 (as amended). On a sheet with a header row, none of whose headers is the name of a member that
  every object inherits, \<open>createRow\<close> appends one row, as long as the header row, and
  answers \<open>{status: "success", data: {id}}\<close> with the id of the row. The id is the one of
  the payload when that is truthy, and \<open>prefix + "-" + rnd\<close> otherwise, so when the
  payload has none; the creation time is the one of the payload when that is truthy, and
  \<open>now\<close> otherwise. The cell under the header \<open>id\<close> holds the id, the cell under
  \<open>created_at\<close> the creation time, and the cell under any other header holds the value
  of the payload for that header when that value is truthy and the empty string when it
  is not: when the payload has no such field, and also when the field is \<open>0\<close>, \<open>false\<close>,
  \<open>null\<close> or the empty string.
\<close>

theorem createRow_appends:
  assumes "sh = headers # rows"
      and "\<forall>h \<in> set headers. js_String h \<notin> set object_prototype_names"
  shows "\<exists>row. createRow sh data prefix rnd now
            = Inr (sh @ [row], SuccessId (row_id data prefix rnd))
      \<and> length row = length headers
      \<and> (truthy (get_prop data ''id'') \<longrightarrow> row_id data prefix rnd = get_prop data ''id'')
      \<and> (\<not> truthy (get_prop data ''id'') \<longrightarrow>
            row_id data prefix rnd = Str (prefix @ ''-'' @ show_nat rnd))
      \<and> (''id'' \<notin> set (keys data) \<longrightarrow> row_id data prefix rnd = Str (prefix @ ''-'' @ show_nat rnd))
      \<and> (truthy (get_prop data ''created_at'') \<longrightarrow>
            row_created_at data now = get_prop data ''created_at'')
      \<and> (\<not> truthy (get_prop data ''created_at'') \<longrightarrow> row_created_at data now = DateV now)
      \<and> (''created_at'' \<notin> set (keys data) \<longrightarrow> row_created_at data now = DateV now)
      \<and> (\<forall>c < length headers. js_String (headers ! c) = ''id'' \<longrightarrow>
            row ! c = row_id data prefix rnd)
      \<and> (\<forall>c < length headers. js_String (headers ! c) = ''created_at'' \<longrightarrow>
            row ! c = row_created_at data now)
      \<and> (\<forall>c < length headers.
            js_String (headers ! c) \<noteq> ''id'' \<longrightarrow> js_String (headers ! c) \<noteq> ''created_at'' \<longrightarrow>
            row ! c = (if truthy (get_prop data (js_String (headers ! c)))
                       then get_prop data (js_String (headers ! c)) else Str []))
      \<and> (\<forall>c < length headers. js_String (headers ! c) \<notin> set (keys data) \<longrightarrow>
            js_String (headers ! c) \<noteq> ''id'' \<longrightarrow> js_String (headers ! c) \<noteq> ''created_at'' \<longrightarrow>
            row ! c = Str [])"
proof -
  let ?data2 = "with_created_at (with_id data prefix rnd) now"
  let ?row = "map (\<lambda>h. or_empty (get_prop ?data2 (js_String h))) headers"
  have res: "createRow sh data prefix rnd now = Inr (sh @ [?row], SuccessId (row_id data prefix rnd))"
    by (simp add: createRow_def assms(1) stamped_id)
  have len: "length ?row = length headers" by simp
  have hasid: "truthy (get_prop data ''id'') \<longrightarrow> row_id data prefix rnd = get_prop data ''id''"
    by (simp add: row_id_def)
  have falsyid: "\<not> truthy (get_prop data ''id'') \<longrightarrow>
      row_id data prefix rnd = Str (prefix @ ''-'' @ show_nat rnd)"
    by (simp add: row_id_def)
  have noid: "''id'' \<notin> set (keys data) \<longrightarrow> row_id data prefix rnd = Str (prefix @ ''-'' @ show_nat rnd)"
    by (simp add: row_id_def get_prop_absent)
  have hascr: "truthy (get_prop data ''created_at'') \<longrightarrow>
      row_created_at data now = get_prop data ''created_at''"
    by (simp add: row_created_at_def)
  have falsycr: "\<not> truthy (get_prop data ''created_at'') \<longrightarrow> row_created_at data now = DateV now"
    by (simp add: row_created_at_def)
  have nocr: "''created_at'' \<notin> set (keys data) \<longrightarrow> row_created_at data now = DateV now"
    by (simp add: row_created_at_def get_prop_absent)
  have idtruthy: "truthy (row_id data prefix rnd)"
    by (simp add: row_id_def)
  have crtruthy: "truthy (row_created_at data now)"
    by (simp add: row_created_at_def)
  have idcell: "\<forall>c < length headers. js_String (headers ! c) = ''id'' \<longrightarrow>
      ?row ! c = row_id data prefix rnd"
    using idtruthy by (simp add: stamped_id or_empty_def)
  have crcell: "\<forall>c < length headers. js_String (headers ! c) = ''created_at'' \<longrightarrow>
      ?row ! c = row_created_at data now"
    using crtruthy by (simp add: stamped_created_at or_empty_def)
  have other: "\<forall>c < length headers.
      js_String (headers ! c) \<noteq> ''id'' \<longrightarrow> js_String (headers ! c) \<noteq> ''created_at'' \<longrightarrow>
      ?row ! c = (if truthy (get_prop data (js_String (headers ! c)))
                  then get_prop data (js_String (headers ! c)) else Str [])"
    by (simp add: stamped_other or_empty_def)
  have missing: "\<forall>c < length headers. js_String (headers ! c) \<notin> set (keys data) \<longrightarrow>
      js_String (headers ! c) \<noteq> ''id'' \<longrightarrow> js_String (headers ! c) \<noteq> ''created_at'' \<longrightarrow>
      ?row ! c = Str []"
    by (simp add: stamped_other get_prop_absent or_empty_def)
  from res len hasid falsyid noid hascr falsycr nocr idcell crcell other missing
  show ?thesis by blast
qed

theorem createRow_appends_witness:
  "createRow sheet_priced [(''visit_id'', Str ''VS-7''), (''price'', Num 150)] ''ST'' 40213
       ''Mon Nov 02 2026''
     = Inr (sheet_priced @ [[Str ''ST-40213'', Str ''VS-7'', Num 150, Str []]],
            SuccessId (Str ''ST-40213''))"
proof -
  have shape: "sheet_priced = [Str ''id'', Str ''visit_id'', Str ''price'', Str ''status'']
      # [[Str ''ST-1'', Str ''VS-1'', Num 150, Str ''Waiting'']]"
    by (simp add: sheet_priced_def)
  have names: "\<forall>h \<in> set [Str ''id'', Str ''visit_id'', Str ''price'', Str ''status''].
      js_String h \<notin> set object_prototype_names"
    by (simp add: object_prototype_names_def)
  from createRow_appends [OF shape names, of "[(''visit_id'', Str ''VS-7''), (''price'', Num 150)]"
      "''ST''" 40213 "''Mon Nov 02 2026''"]
  have appended: "\<exists>row. createRow sheet_priced [(''visit_id'', Str ''VS-7''), (''price'', Num 150)]
      ''ST'' 40213 ''Mon Nov 02 2026''
      = Inr (sheet_priced @ [row],
             SuccessId (row_id [(''visit_id'', Str ''VS-7''), (''price'', Num 150)] ''ST'' 40213))"
    by blast
  have digits: "show_nat 40213 = ''40213''"
    by (simp add: show_nat.simps digit_char_def)
  from appended show ?thesis
    by (simp add: digits createRow_def sheet_priced_def with_id_def with_created_at_def
        get_prop_def put_def or_empty_def row_id_def)
qed

text \<open>
  C6 as stated fails for a field that the payload has with a falsy value: the cell does
  not hold it. The price \<open>0\<close> of a study, which \<open>saveVisit\<close> sends, is written as the
  empty string.
\<close>

theorem createRow_appends_counterexample:
  "createRow sheet_priced [(''visit_id'', Str ''VS-7''), (''price'', Num 0), (''status'', Str ''Waiting'')]
       ''ST'' 40213 ''Mon Nov 02 2026''
     = Inr (sheet_priced @ [[Str ''ST-40213'', Str ''VS-7'', Str [], Str ''Waiting'']],
            SuccessId (Str ''ST-40213''))
   \<and> ''price'' \<in> set (keys [(''visit_id'', Str ''VS-7''), (''price'', Num 0), (''status'', Str ''Waiting'')])
   \<and> get_prop [(''visit_id'', Str ''VS-7''), (''price'', Num 0), (''status'', Str ''Waiting'')] ''price''
       \<noteq> Str []"
proof -
  have digits: "show_nat 40213 = ''40213''"
    by (simp add: show_nat.simps digit_char_def)
  show ?thesis
    by (simp add: digits createRow_def sheet_priced_def with_id_def with_created_at_def
        get_prop_def put_def or_empty_def keys_def)
qed

section \<open>Writing a status and reading it back\<close>

lemma setup_schema_Studies:
  "setup_schema ss now ''Studies'' = Some (setup_sheet ''Studies'' studies_headers now (ss ''Studies''))"
  by (simp add: setup_schema_def schema_def studies_headers_def)

lemma setup_sheet_migrate:
  "sh \<noteq> [] \<Longrightarrow> setup_sheet ''Studies'' d now (Some sh) = migrate sh d"
  by (simp add: setup_sheet_def)

lemma getSheetData_migrate:
  "getSheetData (Some (migrate (hs # rows) d)) =
     map (\<lambda>r. row_object (hs @ map Str (missing_headers hs d))
                 (r @ replicate (length (missing_headers hs d)) (Str []))) rows"
  by (simp add: getSheetData_def migrate_def missing_headers_def Let_def comp_def)

lemma fold_put_get:
  assumes "c < n"
    and "\<forall>c' < n. c' \<noteq> c \<longrightarrow> key c' \<noteq> key c"
  shows "get_prop (fold (\<lambda>c ob. put ob (key c) (val c)) [0..<n] ob0) (key c) = val c"
  using assms
proof (induction n)
  case 0
  then show ?case by simp
next
  case (Suc n)
  show ?case
  proof (cases "c = n")
    case True
    then show ?thesis by (simp add: get_prop_put)
  next
    case False
    with Suc.prems have "c < n" and "key n \<noteq> key c" by auto
    moreover from Suc.prems have "\<forall>c' < n. c' \<noteq> c \<longrightarrow> key c' \<noteq> key c" by auto
    ultimately show ?thesis using Suc.IH by (simp add: get_prop_put)
  qed
qed

lemma row_object_get:
  assumes "c < length hs"
    and "\<forall>c' < length hs. c' \<noteq> c \<longrightarrow> js_String (hs ! c') \<noteq> js_String (hs ! c)"
  shows "get_prop (row_object hs r) (js_String (hs ! c)) = nth_js r c"
  unfolding row_object_def
  using assms by (rule fold_put_get [where key = "\<lambda>c. js_String (hs ! c)" and val = "nth_js r"])

lemma unique_in_extended:
  assumes c: "c < length hs" and str: "hs ! c = Str k"
    and dist: "distinct (map js_String hs)"
  shows "\<forall>c' < length (hs @ map Str (missing_headers hs d)). c' \<noteq> c \<longrightarrow>
           js_String ((hs @ map Str (missing_headers hs d)) ! c')
             \<noteq> js_String ((hs @ map Str (missing_headers hs d)) ! c)"
proof (intro allI impI)
  fix c' assume c': "c' < length (hs @ map Str (missing_headers hs d))" and ne: "c' \<noteq> c"
  let ?hs' = "hs @ map Str (missing_headers hs d)"
  have at_c: "?hs' ! c = Str k" using c str by (simp add: nth_append)
  show "js_String (?hs' ! c') \<noteq> js_String (?hs' ! c)"
  proof (cases "c' < length hs")
    case True
    with dist c ne have "js_String (hs ! c') \<noteq> js_String (hs ! c)"
      using nth_eq_iff_index_eq [of "map js_String hs" c' c] by simp
    with True c show ?thesis by (simp add: nth_append)
  next
    case False
    with c' have "?hs' ! c' \<in> set (map Str (missing_headers hs d))"
      by (simp add: nth_append)
    then obtain m where m: "?hs' ! c' = Str m" "m \<in> set (missing_headers hs d)" by auto
    then have "Str m \<notin> set hs" by (simp add: missing_headers_def)
    moreover have "Str k \<in> set hs" using c str by (metis nth_mem)
    ultimately have "m \<noteq> k" by auto
    with m at_c show ?thesis by simp
  qed
qed

lemma update_status_sheet:
  assumes i: "findRow sh ident = Some i"
    and c: "indexOf (sh ! 0) (Str ''status'') = Some c"
  shows "updateRow sh ident [(''status'', v)] = (sh[i := (sh ! i)[c := v]], Success)"
  by (simp add: updateRow_found [OF i] keys_def write_cell_def c get_prop_def)

lemma handle_updateStudyStatus:
  assumes "ss ''Studies'' = Some sh"
  shows "handleRequest ss Act_updateStudyStatus (Some [(''id'', ident), (''status'', v)]) e
     = (ss(''Studies'' \<mapsto> fst (updateRow sh ident [(''status'', v)])),
        snd (updateRow sh ident [(''status'', v)]))"
  by (simp add: handleRequest_def update_in_def on_sheet_def assms get_prop_def split: prod.split)

lemma handle_getAllData:
  "handleRequest ss Act_getAllData p e = (setup_schema ss (e_now e), getAllData (setup_schema ss (e_now e)))"
  by (simp add: handleRequest_def Let_def)

lemma studies_of_getAllData:
  assumes "ss ''Studies'' = Some (hs # rows)"
  shows "response_studies (getAllData (setup_schema ss now)) =
     map (\<lambda>r. row_object (hs @ map Str (missing_headers hs studies_headers))
                 (r @ replicate (length (missing_headers hs studies_headers)) (Str []))) rows"
  by (simp add: response_studies_def getAllData_def setup_schema_Studies assms
      setup_sheet_migrate getSheetData_migrate)

text \<open>
  C9 (as amended). Let the Studies sheet have pairwise distinct header names, \<open>id\<close> in
  its first column and a \<open>status\<close> column, and exactly one data row whose first column
  is string-equal to the id. Then \<open>updateStudyStatus(id, "Scanning")\<close> succeeds, and the
  studies that a following \<open>getAllData\<close> returns hold a study with that id, and every
  study with that id has status \<open>Scanning\<close>.
\<close>

theorem status_round_trip:
  assumes studies: "ss ''Studies'' = Some ((Str ''id'' # hs) # rows)"
    and rect: "rectangular ((Str ''id'' # hs) # rows)"
    and dist: "distinct (map js_String (Str ''id'' # hs))"
    and status: "Str ''status'' \<in> set hs"
    and one: "\<exists>!i. i < length rows \<and> id_matches ident (rows ! i)"
  shows "snd (handleRequest ss Act_updateStudyStatus (Some [(''id'', ident), (''status'', Str ''Scanning'')]) eu)
           = Success
     \<and> (\<exists>st \<in> set (response_studies (snd (handleRequest
            (fst (handleRequest ss Act_updateStudyStatus
               (Some [(''id'', ident), (''status'', Str ''Scanning'')]) eu)) Act_getAllData pr er))).
          js_String (get_prop st ''id'') = js_String ident)
     \<and> (\<forall>st \<in> set (response_studies (snd (handleRequest
            (fst (handleRequest ss Act_updateStudyStatus
               (Some [(''id'', ident), (''status'', Str ''Scanning'')]) eu)) Act_getAllData pr er))).
          js_String (get_prop st ''id'') = js_String ident \<longrightarrow>
          get_prop st ''status'' = Str ''Scanning'')"
proof -
  let ?hs = "Str ''id'' # hs"
  let ?sh = "?hs # rows"
  let ?upd = "[(''status'', Str ''Scanning'')]"
  from one obtain i where i: "i < length rows" "id_matches ident (rows ! i)"
    and uniq: "\<And>j. j < length rows \<Longrightarrow> id_matches ident (rows ! j) \<Longrightarrow> j = i"
    by blast
  have "\<exists>r \<in> set (data_rows ?sh). id_matches ident r"
    using i by (auto simp: data_rows_def)
  then obtain k where k: "findRow ?sh ident = Some k" using findRow_exists by blast
  note fk = findRow_Some [OF k]
  from fk(1,2,3) have "k - 1 < length rows" "id_matches ident (rows ! (k - 1))"
    by (simp_all add: nth_Cons')
  then have "k - 1 = i" by (rule uniq)
  with fk(1) have k_eq: "k = Suc i" by simp
  from status have "Str ''status'' \<in> set ?hs" by simp
  then obtain c where c: "indexOf ?hs (Str ''status'') = Some c"
    using indexOf_None [of ?hs "Str ''status''"] by (cases "indexOf ?hs (Str ''status'')") auto
  from indexOf_Some [OF c] have c_lt: "c < length ?hs" and c_at: "?hs ! c = Str ''status''"
    by simp_all
  have c0: "c \<noteq> 0" using c_at by (cases c) auto
  let ?rows1 = "rows[i := (rows ! i)[c := Str ''Scanning'']]"
  have upd: "updateRow ?sh ident ?upd = (?hs # ?rows1, Success)"
    using update_status_sheet [of ?sh ident k c "Str ''Scanning''"] k c k_eq by simp
  let ?ss1 = "ss(''Studies'' \<mapsto> ?hs # ?rows1)"
  have h1: "handleRequest ss Act_updateStudyStatus (Some [(''id'', ident), (''status'', Str ''Scanning'')]) eu
      = (?ss1, Success)"
    using handle_updateStudyStatus [of ss ?sh ident "Str ''Scanning''" eu] studies
    by (simp add: upd)
  let ?missing = "missing_headers ?hs studies_headers"
  let ?hs' = "?hs @ map Str ?missing"
  let ?pad = "replicate (length ?missing) (Str [])"
  let ?objs = "map (\<lambda>r. row_object ?hs' (r @ ?pad)) ?rows1"
  have h2: "response_studies (snd (handleRequest ?ss1 Act_getAllData pr er)) = ?objs"
    by (simp add: handle_getAllData studies_of_getAllData [of ?ss1 ?hs ?rows1])
  have rowlen: "\<And>j. j < length rows \<Longrightarrow> length (rows ! j) = length ?hs"
    using rect by (simp add: rectangular_def)
  have id_unique: "\<forall>c' < length ?hs'. c' \<noteq> 0 \<longrightarrow> js_String (?hs' ! c') \<noteq> js_String (?hs' ! 0)"
    by (rule unique_in_extended [OF _ _ dist]) simp_all
  have st_unique: "\<forall>c' < length ?hs'. c' \<noteq> c \<longrightarrow> js_String (?hs' ! c') \<noteq> js_String (?hs' ! c)"
    by (rule unique_in_extended [OF c_lt c_at dist])
  have id_of: "get_prop (?objs ! j) ''id'' = nth_js (rows ! j) 0" if j: "j < length rows" for j
  proof -
    have "get_prop (row_object ?hs' (?rows1 ! j @ ?pad)) (js_String (?hs' ! 0))
        = nth_js (?rows1 ! j @ ?pad) 0"
      by (rule row_object_get [OF _ id_unique]) simp
    moreover have "nth_js (?rows1 ! j @ ?pad) 0 = nth_js (rows ! j) 0"
      using j c0 rowlen [OF j] by (cases "j = i") (simp_all add: nth_js_def nth_append)
    ultimately show ?thesis using j by simp
  qed
  have status_of: "get_prop (?objs ! i) ''status'' = Str ''Scanning''"
  proof -
    have "get_prop (row_object ?hs' (?rows1 ! i @ ?pad)) (js_String (?hs' ! c))
        = nth_js (?rows1 ! i @ ?pad) c"
      by (rule row_object_get [OF _ st_unique]) (use c_lt in simp)
    moreover have "nth_js (?rows1 ! i @ ?pad) c = Str ''Scanning''"
      using i(1) c_lt rowlen [OF i(1)] by (simp add: nth_js_def nth_append)
    moreover have "js_String (?hs' ! c) = ''status''"
      using c_lt c_at by (simp only: nth_append if_True js_String.simps)
    ultimately show ?thesis using i(1) by simp
  qed
  have matches: "js_String (get_prop (?objs ! j) ''id'') = js_String ident \<longleftrightarrow> j = i"
    if j: "j < length rows" for j
    using id_of [OF j] uniq [OF j] i(2) by (auto simp: id_matches_def)
  have ex: "\<exists>st \<in> set ?objs. js_String (get_prop st ''id'') = js_String ident"
  proof
    show "?objs ! i \<in> set ?objs" by (rule nth_mem) (use i(1) in simp)
    show "js_String (get_prop (?objs ! i) ''id'') = js_String ident"
      using matches [OF i(1)] by simp
  qed
  have all: "\<forall>st \<in> set ?objs. js_String (get_prop st ''id'') = js_String ident \<longrightarrow>
      get_prop st ''status'' = Str ''Scanning''"
  proof (intro ballI impI)
    fix st assume "st \<in> set ?objs" and m: "js_String (get_prop st ''id'') = js_String ident"
    then obtain j where j: "j < length ?objs" "st = ?objs ! j"
      by (metis in_set_conv_nth)
    then have "j < length rows" by simp
    with m j have "j = i" using matches by blast
    with j status_of show "get_prop st ''status'' = Str ''Scanning''" by simp
  qed
  show ?thesis
    unfolding h1 fst_conv snd_conv h2 using ex all by simp
qed

lemma eval_helpers:
  "missing_headers [Str ''id'', Str ''status'', Str ''status''] studies_headers
     = [''visit_id'', ''modality'', ''region'', ''study_name'', ''price'',
        ''technician'', ''radiologist'', ''assigned_doctor_id'', ''report_content'',
        ''completed_at'', ''image_links'', ''created_at'']"
  by (simp add: missing_headers_def studies_headers_def)

text \<open>
  C9 as stated fails on a sheet with two \<open>status\<close> columns: \<open>updateRow\<close> writes the
  first of them (\<open>indexOf\<close>), \<open>getSheetData\<close> reads the last of them, and the study
  comes back \<open>Waiting\<close> after a successful update.
\<close>

theorem status_round_trip_counterexample:
  "snd (handleRequest ss_dup Act_updateStudyStatus
          (Some [(''id'', Str ''ST-1''), (''status'', Str ''Scanning'')]) env0) = Success
   \<and> map (\<lambda>st. (get_prop st ''id'', get_prop st ''status''))
        (response_studies (snd (handleRequest
           (fst (handleRequest ss_dup Act_updateStudyStatus
              (Some [(''id'', Str ''ST-1''), (''status'', Str ''Scanning'')]) env0))
           Act_getAllData None env0)))
      = [(Str ''ST-1'', Str ''Waiting'')]"
proof -
  have found: "findRow [[Str ''id'', Str ''status'', Str ''status''],
      [Str ''ST-1'', Str ''Waiting'', Str ''Waiting'']] (Str ''ST-1'') = Some 1"
    by (simp add: findRow_def id_matches_def nth_js_def)
  have upd: "updateRow [[Str ''id'', Str ''status'', Str ''status''],
      [Str ''ST-1'', Str ''Waiting'', Str ''Waiting'']] (Str ''ST-1'') [(''status'', Str ''Scanning'')]
      = ([[Str ''id'', Str ''status'', Str ''status''],
          [Str ''ST-1'', Str ''Scanning'', Str ''Waiting'']], Success)"
    by (simp add: update_status_sheet [OF found])
  have h1: "handleRequest ss_dup Act_updateStudyStatus
      (Some [(''id'', Str ''ST-1''), (''status'', Str ''Scanning'')]) env0
      = (ss_dup(''Studies'' \<mapsto> [[Str ''id'', Str ''status'', Str ''status''],
          [Str ''ST-1'', Str ''Scanning'', Str ''Waiting'']]), Success)"
    by (simp add: handleRequest_def update_in_def on_sheet_def ss_dup_def get_prop_def upd)
  show ?thesis
    unfolding h1 fst_conv snd_conv
    by (simp add: handle_getAllData studies_of_getAllData eval_helpers row_object_def
        get_prop_def put_def nth_js_def)
qed

theorem status_round_trip_witness:
  "snd (handleRequest ss_ok Act_updateStudyStatus
          (Some [(''id'', Str ''ST-2''), (''status'', Str ''Scanning'')]) env0) = Success
   \<and> map (\<lambda>st. (get_prop st ''id'', get_prop st ''status''))
        (response_studies (snd (handleRequest
           (fst (handleRequest ss_ok Act_updateStudyStatus
              (Some [(''id'', Str ''ST-2''), (''status'', Str ''Scanning'')]) env0))
           Act_getAllData None env0)))
      = [(Str ''ST-1'', Str ''Waiting''), (Str ''ST-2'', Str ''Scanning'')]"
proof -
  let ?rows = "[[Str ''ST-1'', Str ''VS-1'', Str ''Waiting''], [Str ''ST-2'', Str ''VS-1'', Str ''Reporting'']]"
  let ?hs = "[Str ''visit_id'', Str ''status'']"
  have studies: "ss_ok ''Studies'' = Some ((Str ''id'' # ?hs) # ?rows)"
    by (simp add: ss_ok_def sheet0_def)
  have rect: "rectangular ((Str ''id'' # ?hs) # ?rows)"
    by (simp add: rectangular_def)
  have dist: "distinct (map js_String (Str ''id'' # ?hs))"
    by simp
  have status: "Str ''status'' \<in> set ?hs"
    by simp
  have one: "\<exists>!i. i < length ?rows \<and> id_matches (Str ''ST-2'') (?rows ! i)"
  proof (rule ex1I [of _ 1])
    show "1 < length ?rows \<and> id_matches (Str ''ST-2'') (?rows ! 1)"
      by (simp add: id_matches_def nth_js_def)
  next
    fix j assume "j < length ?rows \<and> id_matches (Str ''ST-2'') (?rows ! j)"
    then show "j = 1"
      by (cases j) (simp_all add: id_matches_def nth_js_def)
  qed
  from status_round_trip [where ss = ss_ok and eu = env0 and pr = None and er = env0,
      OF studies rect dist status one]
  have first: "snd (handleRequest ss_ok Act_updateStudyStatus
      (Some [(''id'', Str ''ST-2''), (''status'', Str ''Scanning'')]) env0) = Success"
    by blast
  have found: "findRow sheet0 (Str ''ST-2'') = Some 2"
    by (simp add: sheet0_def findRow_def id_matches_def nth_js_def)
  have col: "indexOf (sheet0 ! 0) (Str ''status'') = Some 2"
    by (simp add: sheet0_def)
  have upd: "updateRow sheet0 (Str ''ST-2'') [(''status'', Str ''Scanning'')]
      = ([[Str ''id'', Str ''visit_id'', Str ''status''],
          [Str ''ST-1'', Str ''VS-1'', Str ''Waiting''],
          [Str ''ST-2'', Str ''VS-1'', Str ''Scanning'']], Success)"
    by (simp add: update_status_sheet [OF found col]) (simp add: sheet0_def)
  have h1: "handleRequest ss_ok Act_updateStudyStatus
      (Some [(''id'', Str ''ST-2''), (''status'', Str ''Scanning'')]) env0
      = (ss_ok(''Studies'' \<mapsto> [[Str ''id'', Str ''visit_id'', Str ''status''],
          [Str ''ST-1'', Str ''VS-1'', Str ''Waiting''],
          [Str ''ST-2'', Str ''VS-1'', Str ''Scanning'']]), Success)"
    by (simp add: handleRequest_def update_in_def on_sheet_def ss_ok_def get_prop_def upd)
  have missing: "missing_headers [Str ''id'', Str ''visit_id'', Str ''status''] studies_headers
     = [''modality'', ''region'', ''study_name'', ''price'',
        ''technician'', ''radiologist'', ''assigned_doctor_id'', ''report_content'',
        ''completed_at'', ''image_links'', ''created_at'']"
    by (simp add: missing_headers_def studies_headers_def)
  from first show ?thesis
    unfolding h1 fst_conv snd_conv
    by (simp add: handle_getAllData studies_of_getAllData missing row_object_def
        get_prop_def put_def nth_js_def)
qed

section \<open>Access by role and navigation\<close>

lemma table_roles:
  "role \<in> set (map fst permissions) \<longleftrightarrow>
   role \<in> {''Reception'', ''Technician'', ''Radiologist'', ''Admin'', ''Patient''}"
  by (auto simp: permissions_def)

lemma absent_role:
  assumes "permissions_at role = None"
  shows "getDefaultPage role = Some ''reception''" and "canAccess role pg = Inr False"
    and "getAllowedPages role = Pages []"
  using assms
  by (simp_all add: getDefaultPage_def canAccess_def getAllowedPages_def split: option.split)

lemma known_role_default:
  assumes "role \<in> set (map fst permissions)"
  shows "canAccess role (getDefaultPage role) = Inr True
     \<and> (\<exists>p ps. getDefaultPage role = Some p \<and> getAllowedPages role = Pages ps \<and> p \<in> set ps)"
proof -
  from assms have "role \<in> {''Reception'', ''Technician'', ''Radiologist'', ''Admin'', ''Patient''}"
    by (simp only: table_roles)
  then show ?thesis
    by (auto simp: canAccess_def getDefaultPage_def getAllowedPages_def permissions_at_def
        permissions_def)
qed

text \<open>
  C2 (as amended). For every role of the permission table, the default page of the role is
  accessible to it and is one of its allowed pages.
\<close>

theorem default_page_allowed:
  assumes "role \<in> set (map fst permissions)"
  shows "canAccess role (getDefaultPage role) = Inr True
     \<and> (\<exists>p ps. getDefaultPage role = Some p \<and> getAllowedPages role = Pages ps \<and> p \<in> set ps)"
  using assms by (rule known_role_default)

theorem default_page_allowed_witness:
  "canAccess ''Technician'' (getDefaultPage ''Technician'') = Inr True
   \<and> getDefaultPage ''Technician'' = Some ''technician''
   \<and> getAllowedPages ''Technician'' = Pages [''technician'']"
proof -
  have "''Technician'' \<in> set (map fst permissions)"
    by (simp add: permissions_def)
  from default_page_allowed [OF this] show ?thesis
    by (simp add: getDefaultPage_def getAllowedPages_def permissions_at_def permissions_def)
qed

text \<open>
  C2 as stated fails for a role that the table does not have: its default page is
  \<open>reception\<close>, which it may not open, and it has no allowed page.
\<close>

theorem default_page_allowed_counterexample:
  "getDefaultPage ''Guest'' = Some ''reception''
   \<and> canAccess ''Guest'' (getDefaultPage ''Guest'') = Inr False
   \<and> getAllowedPages ''Guest'' = Pages []"
  by (simp add: canAccess_def getDefaultPage_def getAllowedPages_def permissions_at_def
      permissions_def object_prototype_names_def)

lemma navigate_no_user: "st_user st = None \<Longrightarrow> navigate st page = (st, [ShowLogin])"
  by (simp add: navigate.simps)

lemma navigate_throws:
  "st_user st = Some u \<Longrightarrow> canAccess (u_role u) page = Inl ex \<Longrightarrow>
   navigate st page = (st, [Uncaught ex])"
  by (subst navigate.simps) simp

lemma navigate_allowed:
  "st_user st = Some u \<Longrightarrow> canAccess (u_role u) page = Inr True \<Longrightarrow>
   navigate st page = (st\<lparr>currentView := page\<rparr>, render_page page @ [NavHidden (u_role u = ''Patient'')])"
  by (subst navigate.simps) simp

lemma navigate_denied_default:
  "st_user st = Some u \<Longrightarrow> canAccess (u_role u) page = Inr False \<Longrightarrow>
   page = getDefaultPage (u_role u) \<Longrightarrow>
   navigate st page = (st, [Warn (denied (u_role u) page)])"
  by (subst navigate.simps) simp

lemma navigate_denied_other:
  "st_user st = Some u \<Longrightarrow> canAccess (u_role u) page = Inr False \<Longrightarrow>
   page \<noteq> getDefaultPage (u_role u) \<Longrightarrow>
   navigate st page =
     (fst (navigate st (getDefaultPage (u_role u))),
      Warn (denied (u_role u) page)
      # Redirect (getDefaultPage (u_role u)) # snd (navigate st (getDefaultPage (u_role u))))"
  by (subst navigate.simps) (simp split: prod.split)

text \<open>Whether \<open>canAccess\<close> throws depends on the role only.\<close>

lemma canAccess_answers:
  "canAccess role page = Inr b \<Longrightarrow> \<exists>b'. canAccess role q = Inr b'"
  by (auto simp: canAccess_def Let_def split: option.splits entry.splits)

lemma canAccess_cases:
  "canAccess role page = Inl TypeError \<or> canAccess role page = Inr True
   \<or> canAccess role page = Inr False"
  by (auto simp: canAccess_def Let_def split: option.splits entry.splits)

lemma navigate_to_default:
  assumes "st_user st = Some u" and "canAccess (u_role u) page = Inr b"
  shows "navigate st (getDefaultPage (u_role u)) =
     (if canAccess (u_role u) (getDefaultPage (u_role u)) = Inr True
      then (st\<lparr>currentView := getDefaultPage (u_role u)\<rparr>,
            render_page (getDefaultPage (u_role u)) @ [NavHidden (u_role u = ''Patient'')])
      else (st, [Warn (denied (u_role u) (getDefaultPage (u_role u)))]))"
proof -
  from canAccess_answers [OF assms(2)] obtain b' where
    b': "canAccess (u_role u) (getDefaultPage (u_role u)) = Inr b'" by blast
  show ?thesis
  proof (cases b')
    case True
    with b' assms(1) show ?thesis by (simp add: navigate_allowed)
  next
    case False
    with b' have "canAccess (u_role u) (getDefaultPage (u_role u)) = Inr False" by simp
    with assms(1) have "navigate st (getDefaultPage (u_role u))
        = (st, [Warn (denied (u_role u) (getDefaultPage (u_role u)))])"
      by (rule navigate_denied_default) simp
    with b' False show ?thesis by simp
  qed
qed

lemma render_page_renders: "e \<in> set (render_page page) \<Longrightarrow> \<exists>p. page = Some p \<and> e = Render p"
  by (auto simp: render_page_def split: option.splits if_splits)

lemma allowed_page_rendered:
  "canAccess role page = Inr True \<Longrightarrow> \<exists>p. page = Some p \<and> render_page page = [Render p]"
  by (auto simp: canAccess_def render_page_def permissions_at_def permissions_def Let_def
      split: option.splits if_splits entry.splits)


text \<open>
  C3 (as amended). Without a session \<open>navigate\<close> shows the login view and nothing else.
  With a session for whose role \<open>canAccess\<close> answers that the page is not permitted, the
  page is not rendered and the view is not switched to it; when the page is not the
  role's default page \<open>navigate\<close> warns, redirects to the default page and does what
  navigating there does, without a second redirect; when the page is the default page it
  only warns. A role of the table ends on its default page. A Technician who asks for
  \<open>admin\<close> ends on \<open>technician\<close>.
\<close>

theorem navigate_guard:
  "(st_user st = None \<longrightarrow> navigate st page = (st, [ShowLogin]))
   \<and> (\<forall>u. st_user st = Some u \<and> canAccess (u_role u) page = Inr False \<longrightarrow>
         (\<forall>p. page = Some p \<longrightarrow> Render p \<notin> set (snd (navigate st page)))
         \<and> (currentView (fst (navigate st page)) = page \<longrightarrow> currentView st = page)
         \<and> (page \<noteq> getDefaultPage (u_role u) \<longrightarrow>
               navigate st page =
                 (fst (navigate st (getDefaultPage (u_role u))),
                  Warn (denied (u_role u) page)
                  # Redirect (getDefaultPage (u_role u))
                  # snd (navigate st (getDefaultPage (u_role u))))
               \<and> filter is_redirect (snd (navigate st (getDefaultPage (u_role u)))) = [])
         \<and> (page = getDefaultPage (u_role u) \<longrightarrow>
               navigate st page = (st, [Warn (denied (u_role u) page)]))
         \<and> (u_role u \<in> set (map fst permissions) \<longrightarrow>
               currentView (fst (navigate st page)) = getDefaultPage (u_role u)
               \<and> (\<exists>p. getDefaultPage (u_role u) = Some p
                      \<and> Render p \<in> set (snd (navigate st page)))))
   \<and> (\<forall>u. st_user st = Some u \<and> u_role u = ''Technician'' \<longrightarrow>
         navigate st (Some ''admin'') =
           (st\<lparr>currentView := Some ''technician''\<rparr>,
            [Warn ''Access denied: Technician cannot access admin'',
             Redirect (Some ''technician''), Render ''technician'', NavHidden False]))"
proof -
  have no_session: "st_user st = None \<longrightarrow> navigate st page = (st, [ShowLogin])"
    by (simp add: navigate_no_user)
  have denied_page: "\<forall>u. st_user st = Some u \<and> canAccess (u_role u) page = Inr False \<longrightarrow>
         (\<forall>p. page = Some p \<longrightarrow> Render p \<notin> set (snd (navigate st page)))
         \<and> (currentView (fst (navigate st page)) = page \<longrightarrow> currentView st = page)
         \<and> (page \<noteq> getDefaultPage (u_role u) \<longrightarrow>
               navigate st page =
                 (fst (navigate st (getDefaultPage (u_role u))),
                  Warn (denied (u_role u) page)
                  # Redirect (getDefaultPage (u_role u))
                  # snd (navigate st (getDefaultPage (u_role u))))
               \<and> filter is_redirect (snd (navigate st (getDefaultPage (u_role u)))) = [])
         \<and> (page = getDefaultPage (u_role u) \<longrightarrow>
               navigate st page = (st, [Warn (denied (u_role u) page)]))
         \<and> (u_role u \<in> set (map fst permissions) \<longrightarrow>
               currentView (fst (navigate st page)) = getDefaultPage (u_role u)
               \<and> (\<exists>p. getDefaultPage (u_role u) = Some p
                      \<and> Render p \<in> set (snd (navigate st page))))"
  proof (intro allI impI)
    fix u assume h: "st_user st = Some u \<and> canAccess (u_role u) page = Inr False"
    then have u: "st_user st = Some u" and no: "canAccess (u_role u) page = Inr False"
      by simp_all
    let ?d = "getDefaultPage (u_role u)"
    let ?w = "Warn (denied (u_role u) page)"
    note dflt = navigate_to_default [OF u no]
    have nav: "navigate st page =
        (if page = ?d then (st, [?w])
         else (fst (navigate st ?d), ?w # Redirect ?d # snd (navigate st ?d)))"
      using navigate_denied_default [OF u no] navigate_denied_other [OF u no] by simp
    have unrendered: "Render p \<notin> set (snd (navigate st ?d))" if "page = Some p" for p
    proof
      assume "Render p \<in> set (snd (navigate st ?d))"
      then have "canAccess (u_role u) ?d = Inr True \<and> Render p \<in> set (render_page ?d)"
        by (auto simp: dflt split: if_splits)
      then have "canAccess (u_role u) ?d = Inr True \<and> ?d = Some p"
        by (auto dest: render_page_renders)
      then have "canAccess (u_role u) (Some p) = Inr True" by auto
      moreover from that no have "canAccess (u_role u) (Some p) = Inr False" by simp
      ultimately show False by simp
    qed
    have a: "\<forall>p. page = Some p \<longrightarrow> Render p \<notin> set (snd (navigate st page))"
    proof (intro allI impI)
      fix p assume pg: "page = Some p"
      show "Render p \<notin> set (snd (navigate st page))"
      proof (cases "page = ?d")
        case True
        with u no have "navigate st page = (st, [?w])" by (rule navigate_denied_default)
        then show ?thesis by simp
      next
        case False
        with u no have "navigate st page
            = (fst (navigate st ?d), ?w # Redirect ?d # snd (navigate st ?d))"
          by (rule navigate_denied_other)
        with unrendered [OF pg] show ?thesis by simp
      qed
    qed
    have b: "currentView (fst (navigate st page)) = page \<longrightarrow> currentView st = page"
      using no by (auto simp: nav dflt split: if_splits)
    have c: "page \<noteq> ?d \<longrightarrow>
        navigate st page = (fst (navigate st ?d), ?w # Redirect ?d # snd (navigate st ?d))
        \<and> filter is_redirect (snd (navigate st ?d)) = []"
      by (auto simp: nav dflt render_page_def split: option.splits)
    have d: "page = ?d \<longrightarrow> navigate st page = (st, [?w])"
      using navigate_denied_default [OF u no] by blast
    have e: "u_role u \<in> set (map fst permissions) \<longrightarrow>
        currentView (fst (navigate st page)) = ?d
        \<and> (\<exists>p. ?d = Some p \<and> Render p \<in> set (snd (navigate st page)))"
    proof
      assume known: "u_role u \<in> set (map fst permissions)"
      then have acc: "canAccess (u_role u) ?d = Inr True" by (simp add: known_role_default)
      with no have ne: "page \<noteq> ?d" by auto
      from allowed_page_rendered [OF acc] obtain p where
        p: "?d = Some p" "render_page ?d = [Render p]" by blast
      have navd: "navigate st ?d = (st\<lparr>currentView := ?d\<rparr>,
          render_page ?d @ [NavHidden (u_role u = ''Patient'')])"
        using acc by (simp add: dflt)
      have navp: "navigate st page
          = (fst (navigate st ?d), ?w # Redirect ?d # snd (navigate st ?d))"
        using ne by (simp add: nav)
      have shown: "Render p \<in> set (render_page ?d)" using p by simp
      have "currentView (fst (navigate st page)) = ?d"
        by (simp add: navp navd)
      moreover have "Render p \<in> set (snd (navigate st page))"
        using shown by (simp add: navp navd)
      ultimately show "currentView (fst (navigate st page)) = ?d
          \<and> (\<exists>p. ?d = Some p \<and> Render p \<in> set (snd (navigate st page)))"
        using p by blast
    qed
    from a b c d e show "(\<forall>p. page = Some p \<longrightarrow> Render p \<notin> set (snd (navigate st page)))
         \<and> (currentView (fst (navigate st page)) = page \<longrightarrow> currentView st = page)
         \<and> (page \<noteq> ?d \<longrightarrow>
               navigate st page = (fst (navigate st ?d), ?w # Redirect ?d # snd (navigate st ?d))
               \<and> filter is_redirect (snd (navigate st ?d)) = [])
         \<and> (page = ?d \<longrightarrow> navigate st page = (st, [?w]))
         \<and> (u_role u \<in> set (map fst permissions) \<longrightarrow>
               currentView (fst (navigate st page)) = ?d
               \<and> (\<exists>p. ?d = Some p \<and> Render p \<in> set (snd (navigate st page))))"
      by (intro conjI)
  qed
  have technician: "\<forall>u. st_user st = Some u \<and> u_role u = ''Technician'' \<longrightarrow>
         navigate st (Some ''admin'') =
           (st\<lparr>currentView := Some ''technician''\<rparr>,
            [Warn ''Access denied: Technician cannot access admin'',
             Redirect (Some ''technician''), Render ''technician'', NavHidden False])"
  proof (intro allI impI)
    fix u assume h: "st_user st = Some u \<and> u_role u = ''Technician''"
    then have u: "st_user st = Some u" and r: "u_role u = ''Technician''" by simp_all
    have no: "canAccess (u_role u) (Some ''admin'') = Inr False"
      by (simp add: r canAccess_def permissions_at_def permissions_def)
    have d: "getDefaultPage ''Technician'' = Some ''technician''"
      by (simp add: getDefaultPage_def permissions_at_def permissions_def)
    have acc: "canAccess (u_role u) (Some ''technician'') = Inr True"
      by (simp add: r canAccess_def permissions_at_def permissions_def)
    have "navigate st (Some ''technician'') =
        (st\<lparr>currentView := Some ''technician''\<rparr>, [Render ''technician'', NavHidden False])"
      using navigate_allowed [OF u acc] by (simp add: r render_page_def)
    with navigate_denied_other [OF u no] show "navigate st (Some ''admin'') =
        (st\<lparr>currentView := Some ''technician''\<rparr>,
         [Warn ''Access denied: Technician cannot access admin'',
          Redirect (Some ''technician''), Render ''technician'', NavHidden False])"
      by (simp add: d r denied_def page_text_def)
  qed
  from no_session denied_page technician show ?thesis by (intro conjI)
qed

theorem navigate_guard_witness:
  "navigate state0 (Some ''admin'') = (state0, [ShowLogin])
   \<and> navigate (signed_in ''Technician'') (Some ''admin'') =
       ((signed_in ''Technician'')\<lparr>currentView := Some ''technician''\<rparr>,
        [Warn ''Access denied: Technician cannot access admin'', Redirect (Some ''technician''),
         Render ''technician'', NavHidden False])"
proof -
  have none: "st_user state0 = None" by (simp add: state0_def)
  have tech: "st_user (signed_in ''Technician'') = Some (staff ''Technician'')
      \<and> u_role (staff ''Technician'') = ''Technician''"
    by (simp add: signed_in_def staff_def)
  from none navigate_guard [of state0 "Some ''admin''"]
  have first: "navigate state0 (Some ''admin'') = (state0, [ShowLogin])" by blast
  from tech navigate_guard [of "signed_in ''Technician''" "Some ''admin''"]
  have second: "navigate (signed_in ''Technician'') (Some ''admin'') =
       ((signed_in ''Technician'')\<lparr>currentView := Some ''technician''\<rparr>,
        [Warn ''Access denied: Technician cannot access admin'', Redirect (Some ''technician''),
         Render ''technician'', NavHidden False])" by blast
  from first second show ?thesis by (rule conjI)
qed

text \<open>
  C3 as stated fails for a user whose role names a member that every object inherits.
  The table has no role \<open>constructor\<close>, yet \<open>permissions["constructor"]\<close> is a function:
  \<open>canAccess\<close> throws, and \<open>navigate\<close> ends without a warning and without the redirect
  to a default page.
\<close>

theorem navigate_guard_counterexample:
  "''constructor'' \<notin> set (map fst permissions)
   \<and> canAccess ''constructor'' (Some ''admin'') = Inl TypeError
   \<and> navigate (signed_in ''constructor'') (Some ''admin'')
       = (signed_in ''constructor'', [Uncaught TypeError])"
proof -
  have u: "st_user (signed_in ''constructor'') = Some (staff ''constructor'')"
    by (simp add: signed_in_def)
  have t: "canAccess ''constructor'' (Some ''admin'') = Inl TypeError"
    by (simp add: canAccess_def permissions_at_def permissions_def object_prototype_names_def)
  then have "canAccess (u_role (staff ''constructor'')) (Some ''admin'') = Inl TypeError"
    by (simp add: staff_def)
  from navigate_throws [OF u this] t show ?thesis
    by (simp add: permissions_def)
qed

text \<open>
  C10 (as amended). \<open>navigate\<close> is a total function: it returns for every state, role
  and page. It redirects at most once. A session whose role may open neither the page
  asked for nor its default page ends with the state as it was and no page rendered. For a
  role for which the table has no entry, own or inherited, \<open>getDefaultPage\<close> is
  \<open>reception\<close> and no page is accessible, so that such a session ends in this way.
\<close>

theorem navigate_redirects_once:
  "length (filter is_redirect (snd (navigate st page))) \<le> 1
   \<and> (\<forall>u. st_user st = Some u \<and> canAccess (u_role u) page \<noteq> Inr True
           \<and> canAccess (u_role u) (getDefaultPage (u_role u)) \<noteq> Inr True \<longrightarrow>
         fst (navigate st page) = st \<and> filter is_render (snd (navigate st page)) = [])
   \<and> (permissions_at role = None \<longrightarrow>
         getDefaultPage role = Some ''reception'' \<and> canAccess role pg = Inr False)
   \<and> (\<forall>u. st_user st = Some u \<and> permissions_at (u_role u) = None \<longrightarrow>
         canAccess (u_role u) page = Inr False
         \<and> canAccess (u_role u) (Some ''reception'') = Inr False
         \<and> fst (navigate st page) = st
         \<and> filter is_render (snd (navigate st page)) = [])"
proof -
  have once: "length (filter is_redirect (snd (navigate st page))) \<le> 1"
  proof (cases "st_user st")
    case None
    then show ?thesis by (simp add: navigate_no_user)
  next
    case (Some u)
    from canAccess_cases [of "u_role u" page] show ?thesis
    proof (elim disjE)
      assume "canAccess (u_role u) page = Inl TypeError"
      with Some show ?thesis by (simp add: navigate_throws)
    next
      assume "canAccess (u_role u) page = Inr True"
      with Some show ?thesis
        by (simp add: navigate_allowed render_page_def split: option.split)
    next
      assume no: "canAccess (u_role u) page = Inr False"
      note dflt = navigate_to_default [OF Some no]
      show ?thesis
      proof (cases "page = getDefaultPage (u_role u)")
        case True
        with Some no have "navigate st page = (st, [Warn (denied (u_role u) page)])"
          by (rule navigate_denied_default)
        then show ?thesis by simp
      next
        case False
        with Some no show ?thesis
          by (simp add: navigate_denied_other dflt render_page_def split: option.split)
      qed
    qed
  qed
  have neither: "fst (navigate st page) = st \<and> filter is_render (snd (navigate st page)) = []"
    if u: "st_user st = Some u" and np: "canAccess (u_role u) page \<noteq> Inr True"
      and nd: "canAccess (u_role u) (getDefaultPage (u_role u)) \<noteq> Inr True" for u
  proof -
    from canAccess_cases [of "u_role u" page] np
    have "canAccess (u_role u) page = Inl TypeError \<or> canAccess (u_role u) page = Inr False"
      by blast
    then show ?thesis
    proof
      assume "canAccess (u_role u) page = Inl TypeError"
      with u show ?thesis by (simp add: navigate_throws)
    next
      assume no: "canAccess (u_role u) page = Inr False"
      have dflt: "navigate st (getDefaultPage (u_role u))
          = (st, [Warn (denied (u_role u) (getDefaultPage (u_role u)))])"
        using navigate_to_default [OF u no] nd by simp
      show ?thesis
      proof (cases "page = getDefaultPage (u_role u)")
        case True
        with u no have "navigate st page = (st, [Warn (denied (u_role u) page)])"
          by (rule navigate_denied_default)
        then show ?thesis by simp
      next
        case False
        with u no show ?thesis by (simp add: navigate_denied_other dflt)
      qed
    qed
  qed
  have fallback: "permissions_at role = None \<longrightarrow>
      getDefaultPage role = Some ''reception'' \<and> canAccess role pg = Inr False"
    by (simp add: absent_role)
  have absent: "canAccess (u_role u) page = Inr False
      \<and> canAccess (u_role u) (Some ''reception'') = Inr False
      \<and> fst (navigate st page) = st
      \<and> filter is_render (snd (navigate st page)) = []"
    if u: "st_user st = Some u" and none: "permissions_at (u_role u) = None" for u
  proof -
    have no: "\<And>q. canAccess (u_role u) q = Inr False" using none by (rule absent_role)
    have "canAccess (u_role u) page \<noteq> Inr True"
      and "canAccess (u_role u) (getDefaultPage (u_role u)) \<noteq> Inr True"
      by (simp_all add: no)
    with u have "fst (navigate st page) = st \<and> filter is_render (snd (navigate st page)) = []"
      by (rule neither)
    with no show ?thesis by simp
  qed
  from once neither fallback absent show ?thesis by blast
qed

theorem navigate_redirects_once_witness:
  "getDefaultPage ''Guest'' = Some ''reception''
   \<and> fst (navigate (signed_in ''Guest'') (Some ''admin'')) = signed_in ''Guest''
   \<and> filter is_render (snd (navigate (signed_in ''Guest'') (Some ''admin''))) = []
   \<and> length (filter is_redirect (snd (navigate (signed_in ''Guest'') (Some ''admin'')))) \<le> 1"
proof -
  have unknown: "permissions_at ''Guest'' = None"
    by (simp add: permissions_at_def permissions_def object_prototype_names_def)
  have guest: "st_user (signed_in ''Guest'') = Some (staff ''Guest'')
      \<and> permissions_at (u_role (staff ''Guest'')) = None"
    using unknown by (simp add: signed_in_def staff_def)
  from unknown guest
    navigate_redirects_once [of "signed_in ''Guest''" "Some ''admin''" "''Guest''" "Some ''admin''"]
  show ?thesis by blast
qed

text \<open>
  C10 as stated fails for a role that the table lacks but whose name every object
  inherits: \<open>getDefaultPage\<close> does not fall back to \<open>reception\<close> for it (it gives
  \<open>undefined\<close>), and \<open>canAccess\<close> throws.
\<close>

theorem navigate_redirects_once_counterexample:
  "''constructor'' \<notin> set (map fst permissions)
   \<and> getDefaultPage ''constructor'' = None
   \<and> canAccess ''constructor'' (Some ''reception'') = Inl TypeError"
  by (simp add: getDefaultPage_def canAccess_def permissions_at_def permissions_def
      object_prototype_names_def)

section \<open>Logging a patient in\<close>









section \<open>Optimistic creation of a visit\<close>

lemma digit_char_inj: "a < 10 \<Longrightarrow> b < 10 \<Longrightarrow> digit_char a = digit_char b \<Longrightarrow> a = b"
proof -
  assume a: "a < 10" and b: "b < 10" and eq: "digit_char a = digit_char b"
  have d: "distinct ''0123456789''" by simp
  from a b have "a < length ''0123456789''" "b < length ''0123456789''" by simp_all
  with d eq show "a = b" by (simp add: digit_char_def nth_eq_iff_index_eq del: nth_Cons_numeral)
qed

lemma show_nat_nonempty: "show_nat n \<noteq> []"
  by (subst show_nat.simps) simp

lemma show_nat_inj: "show_nat a = show_nat b \<Longrightarrow> a = b"
proof (induction a arbitrary: b rule: show_nat.induct)
  case (1 a)
  show ?case
  proof (cases "a < 10")
    case True
    then have sa: "show_nat a = [digit_char a]" by (subst show_nat.simps) simp
    show ?thesis
    proof (cases "b < 10")
      case b: True
      then have "show_nat b = [digit_char b]" by (subst show_nat.simps) simp
      with sa "1.prems" True b show ?thesis by (simp add: digit_char_inj)
    next
      case b: False
      then have "show_nat b = show_nat (b div 10) @ [digit_char (b mod 10)]"
        by (subst show_nat.simps) simp
      with sa "1.prems" show ?thesis by (simp add: show_nat_nonempty)
    qed
  next
    case False
    then have sa: "show_nat a = show_nat (a div 10) @ [digit_char (a mod 10)]"
      by (subst show_nat.simps) simp
    show ?thesis
    proof (cases "b < 10")
      case b: True
      then have "show_nat b = [digit_char b]" by (subst show_nat.simps) simp
      with sa "1.prems" show ?thesis using show_nat_nonempty [of "a div 10"] by auto
    next
      case b: False
      then have sb: "show_nat b = show_nat (b div 10) @ [digit_char (b mod 10)]"
        by (subst show_nat.simps) simp
      from sa sb "1.prems" have "show_nat (a div 10) = show_nat (b div 10)"
        and "digit_char (a mod 10) = digit_char (b mod 10)" by simp_all
      then have "a div 10 = b div 10" and "a mod 10 = b mod 10"
        using "1.IH" [OF False] by (simp_all add: digit_char_inj)
      then show ?thesis by (metis div_mult_mod_eq)
    qed
  qed
qed

lemma digit_char_not_dash: "n < 10 \<Longrightarrow> digit_char n \<noteq> CHR ''-''"
proof -
  assume "n < 10"
  then have "n \<in> {0, 1, 2, 3, 4, 5, 6, 7, 8, 9}" by auto
  then show ?thesis by (auto simp: digit_char_def)
qed

lemma show_nat_no_dash: "CHR ''-'' \<notin> set (show_nat n)"
proof (induction n rule: show_nat.induct)
  case (1 n)
  show ?case
  proof (cases "n < 10")
    case True
    then show ?thesis by (subst show_nat.simps) (simp add: digit_char_not_dash [symmetric])
  next
    case False
    have "n mod 10 < 10" by simp
    then have "digit_char (n mod 10) \<noteq> CHR ''-''" by (rule digit_char_not_dash)
    with False "1.IH" show ?thesis by (subst show_nat.simps) auto
  qed
qed

lemma takeWhile_until: "c \<notin> set xs \<Longrightarrow> takeWhile (\<lambda>x. x \<noteq> c) (xs @ c # r) = xs"
  by (induction xs) auto

lemma split_at_dash:
  assumes "c \<notin> set xs" and "c \<notin> set ys" and "xs @ c # r = ys @ c # s"
  shows "xs = ys \<and> r = s"
proof -
  have "takeWhile (\<lambda>x. x \<noteq> c) (xs @ c # r) = xs" using assms(1) by (rule takeWhile_until)
  moreover have "takeWhile (\<lambda>x. x \<noteq> c) (ys @ c # s) = ys" using assms(2) by (rule takeWhile_until)
  ultimately have "xs = ys" using assms(3) by simp
  with assms(3) show ?thesis by simp
qed

lemma generateId_inj:
  "generateId prefix d = generateId prefix d' \<longleftrightarrow> d_time d = d_time d' \<and> d_random d = d_random d'"
proof
  assume "generateId prefix d = generateId prefix d'"
  then have "show_nat (d_time d) @ CHR ''-'' # show_nat (d_random d)
      = show_nat (d_time d') @ CHR ''-'' # show_nat (d_random d')"
    by (simp add: generateId_def)
  then have "show_nat (d_time d) = show_nat (d_time d') \<and> show_nat (d_random d) = show_nat (d_random d')"
    by (rule split_at_dash [OF show_nat_no_dash show_nat_no_dash])
  then show "d_time d = d_time d' \<and> d_random d = d_random d'"
    by (simp add: show_nat_inj)
next
  assume "d_time d = d_time d' \<and> d_random d = d_random d'"
  then show "generateId prefix d = generateId prefix d'" by (simp add: generateId_def)
qed

lemma navigate_view_only:
  "fst (navigate st page) = st \<or> (\<exists>q. fst (navigate st page) = st\<lparr>currentView := q\<rparr>)"
proof (cases "st_user st")
  case None
  then show ?thesis by (simp add: navigate_no_user)
next
  case (Some u)
  let ?d = "getDefaultPage (u_role u)"
  from canAccess_cases [of "u_role u" page] show ?thesis
  proof (elim disjE)
    assume "canAccess (u_role u) page = Inl TypeError"
    with Some show ?thesis by (simp add: navigate_throws)
  next
    assume "canAccess (u_role u) page = Inr True"
    with Some have "fst (navigate st page) = st\<lparr>currentView := page\<rparr>"
      by (simp add: navigate_allowed)
    then show ?thesis by blast
  next
    assume no: "canAccess (u_role u) page = Inr False"
    have at_default: "fst (navigate st ?d) = st \<or> fst (navigate st ?d) = st\<lparr>currentView := ?d\<rparr>"
      by (simp add: navigate_to_default [OF Some no])
    show ?thesis
    proof (cases "page = ?d")
      case True
      with Some no have "navigate st page = (st, [Warn (denied (u_role u) page)])"
        by (rule navigate_denied_default)
      then show ?thesis by simp
    next
      case False
      with Some no have "fst (navigate st page) = fst (navigate st ?d)"
        by (simp add: navigate_denied_other)
      with at_default show ?thesis by auto
    qed
  qed
qed

lemma navigate_keeps:
  "st_visits (fst (navigate st page)) = st_visits st"
  "st_studies (fst (navigate st page)) = st_studies st"
  "st_user (fst (navigate st page)) = st_user st"
  "st_patients (fst (navigate st page)) = st_patients st"
  using navigate_view_only [of st page] by auto

lemma saveVisit_state:
  assumes "hasPermission st ''createVisit''" and "patientId \<noteq> []" and "assignedDoctorId \<noteq> []"
    and "tempQueue st \<noteq> []"
  shows "st_visits (fst (saveVisit st patientId assignedDoctorId visitDate vdraw sdraws))
           = st_visits st @ [new_visit patientId assignedDoctorId visitDate vdraw]"
    and "st_studies (fst (saveVisit st patientId assignedDoctorId visitDate vdraw sdraws))
           = st_studies st @ new_studies (generateId ''VS'' vdraw) assignedDoctorId sdraws (tempQueue st)"
proof -
  let ?v = "new_visit patientId assignedDoctorId visitDate vdraw"
  let ?new = "new_studies (generateId ''VS'' vdraw) assignedDoctorId sdraws (tempQueue st)"
  let ?st2 = "st\<lparr>st_visits := st_visits st @ [?v], st_studies := st_studies st @ ?new\<rparr>"
  have run: "fst (saveVisit st patientId assignedDoctorId visitDate vdraw sdraws)
      = (fst (navigate ?st2 (Some ''reception'')))\<lparr>tempQueue := []\<rparr>"
    using assms
    by (simp add: saveVisit_def Let_def new_visit_def new_studies_def split: prod.split)
  show "st_visits (fst (saveVisit st patientId assignedDoctorId visitDate vdraw sdraws))
      = st_visits st @ [?v]"
    by (simp add: run navigate_keeps)
  show "st_studies (fst (saveVisit st patientId assignedDoctorId visitDate vdraw sdraws))
      = st_studies st @ ?new"
    by (simp add: run navigate_keeps)
qed

lemma length_new_studies [simp]: "length (new_studies vid doc sdraws queue) = length queue"
  by (simp add: new_studies_def)

lemma nth_new_studies:
  "i < length queue \<Longrightarrow>
   new_studies vid doc sdraws queue ! i = new_study vid doc (sdraws i) (queue ! i)"
  by (simp add: new_studies_def nth_enumerate_eq)

lemma ids_new_studies:
  "map s_id (new_studies vid doc sdraws queue)
     = map (\<lambda>i. generateId ''ST'' (sdraws i)) [0..<length queue]"
proof (rule nth_equalityI)
  show "length (map s_id (new_studies vid doc sdraws queue))
      = length (map (\<lambda>i. generateId ''ST'' (sdraws i)) [0..<length queue])"
    by simp
next
  fix i assume "i < length (map s_id (new_studies vid doc sdraws queue))"
  then have i: "i < length queue" by simp
  then show "map s_id (new_studies vid doc sdraws queue) ! i
      = map (\<lambda>i. generateId ''ST'' (sdraws i)) [0..<length queue] ! i"
    by (simp add: nth_new_studies new_study_def)
qed

lemma distinct_new_ids:
  "distinct (map s_id (new_studies vid doc sdraws queue)) \<longleftrightarrow>
   inj_on (\<lambda>i. (d_time (sdraws i), d_random (sdraws i))) {..<length queue}"
proof -
  have "distinct (map s_id (new_studies vid doc sdraws queue)) \<longleftrightarrow>
      inj_on (\<lambda>i. generateId ''ST'' (sdraws i)) {..<length queue}"
    by (simp add: ids_new_studies distinct_map atLeast0LessThan)
  also have "\<dots> \<longleftrightarrow> inj_on (\<lambda>i. (d_time (sdraws i), d_random (sdraws i))) {..<length queue}"
    by (simp add: inj_on_def generateId_inj)
  finally show ?thesis .
qed

text \<open>
  C5 (as amended). When a user who may create visits (Reception or Admin) saves a visit
  with a selected patient, a selected doctor and \<open>N > 0\<close> queued studies, Application
  State has, as soon as \<open>saveVisit\<close> returns, one more visit, of that patient and doctor,
  and \<open>N\<close> more studies, each \<open>Waiting\<close>, each of the new visit, the \<open>i\<close>-th with the id
  \<open>ST-<Date.now()>-<random>\<close> of its draw. The new ids are pairwise different exactly
  when the pairs of clock reading and random number drawn for them are.
\<close>

theorem saveVisit_optimistic:
  assumes "hasPermission st ''createVisit''" and "patientId \<noteq> []" and "assignedDoctorId \<noteq> []"
    and "tempQueue st \<noteq> []"
  shows "\<exists>v new.
      st_visits (fst (saveVisit st patientId assignedDoctorId visitDate vdraw sdraws))
        = st_visits st @ [v]
      \<and> v_patient_id v = patientId \<and> v_assigned_doctor_id v = assignedDoctorId
      \<and> v_id v = generateId ''VS'' vdraw
      \<and> st_studies (fst (saveVisit st patientId assignedDoctorId visitDate vdraw sdraws))
        = st_studies st @ new
      \<and> length new = length (tempQueue st)
      \<and> (\<forall>i < length (tempQueue st).
            s_status (new ! i) = ''Waiting'' \<and> s_visit_id (new ! i) = v_id v
            \<and> s_id (new ! i) = generateId ''ST'' (sdraws i))
      \<and> (distinct (map s_id new) \<longleftrightarrow>
            inj_on (\<lambda>i. (d_time (sdraws i), d_random (sdraws i))) {..<length (tempQueue st)})"
proof -
  let ?v = "new_visit patientId assignedDoctorId visitDate vdraw"
  let ?new = "new_studies (generateId ''VS'' vdraw) assignedDoctorId sdraws (tempQueue st)"
  note state = saveVisit_state [OF assms, of visitDate vdraw sdraws]
  have visit: "v_patient_id ?v = patientId \<and> v_assigned_doctor_id ?v = assignedDoctorId
      \<and> v_id ?v = generateId ''VS'' vdraw"
    by (simp add: new_visit_def)
  have each: "\<forall>i < length (tempQueue st).
      s_status (?new ! i) = ''Waiting'' \<and> s_visit_id (?new ! i) = v_id ?v
      \<and> s_id (?new ! i) = generateId ''ST'' (sdraws i)"
    by (simp add: nth_new_studies new_study_def new_visit_def)
  from state visit each distinct_new_ids [of "generateId ''VS'' vdraw" assignedDoctorId sdraws "tempQueue st"]
  show ?thesis
    by (intro exI [of _ ?v] exI [of _ ?new]) simp
qed

lemma show_nat_examples:
  "show_nat 1762074000000 = ''1762074000000''"
  "show_nat 42 = ''42''"
  "show_nat 43 = ''43''"
  by (simp_all add: show_nat.simps digit_char_def)

lemma at_desk_simps:
  "hasPermission (at_desk ''Reception'') ''createVisit''"
  "\<not> hasPermission (at_desk ''Radiologist'') ''createVisit''"
  "tempQueue (at_desk role) = queue0"
  "st_studies (at_desk role) = []"
  "st_visits (at_desk role) = []"
  by (simp_all add: at_desk_def signed_in_def staff_def state0_def hasPermission_def
      actionPermissions_def)

theorem saveVisit_optimistic_witness:
  "map v_id (st_visits (fst (saveVisit (at_desk ''Reception'') ''PT-101'' ''USR-2''
       ''2026-11-02T09:00'' (draw0 7) (\<lambda>i. draw0 (42 + i)))))
     = [generateId ''VS'' (draw0 7)]
   \<and> map s_id (st_studies (fst (saveVisit (at_desk ''Reception'') ''PT-101'' ''USR-2''
       ''2026-11-02T09:00'' (draw0 7) (\<lambda>i. draw0 (42 + i)))))
     = [''ST-1762074000000-42'', ''ST-1762074000000-43'']
   \<and> map s_status (st_studies (fst (saveVisit (at_desk ''Reception'') ''PT-101'' ''USR-2''
       ''2026-11-02T09:00'' (draw0 7) (\<lambda>i. draw0 (42 + i)))))
     = [''Waiting'', ''Waiting'']"
proof -
  have perm: "hasPermission (at_desk ''Reception'') ''createVisit''"
    by (rule at_desk_simps)
  have patient: "''PT-101'' \<noteq> []" and doctor: "''USR-2'' \<noteq> []" by simp_all
  have queue: "tempQueue (at_desk ''Reception'') \<noteq> []"
    by (simp add: at_desk_simps queue0_def)
  from saveVisit_optimistic [OF perm patient doctor queue, of "''2026-11-02T09:00''" "draw0 7"
      "\<lambda>i. draw0 (42 + i)"]
  obtain new where
    a: "st_studies (fst (saveVisit (at_desk ''Reception'') ''PT-101'' ''USR-2''
       ''2026-11-02T09:00'' (draw0 7) (\<lambda>i. draw0 (42 + i)))) = st_studies (at_desk ''Reception'') @ new"
    and b: "length new = length (tempQueue (at_desk ''Reception''))"
    by blast
  have two: "length (st_studies (fst (saveVisit (at_desk ''Reception'') ''PT-101'' ''USR-2''
       ''2026-11-02T09:00'' (draw0 7) (\<lambda>i. draw0 (42 + i))))) = 2"
    by (simp add: a b at_desk_simps queue0_def)
  from two show ?thesis
    by (simp add: saveVisit_state [OF perm patient doctor queue] at_desk_simps ids_new_studies
        new_visit_def new_studies_def new_study_def
        queue0_def generateId_def draw0_def show_nat_examples upt_rec enumerate_eq_zip)
qed

text \<open>
  C5 as stated fails in two ways. Two studies that draw the same clock reading and the
  same random number get the same id. And a user who may open the reception page but may
  not create visits (a Radiologist) is refused: no visit and no study is added.
\<close>

theorem saveVisit_optimistic_counterexample:
  "map s_id (st_studies (fst (saveVisit (at_desk ''Reception'') ''PT-101'' ''USR-2''
       ''2026-11-02T09:00'' (draw0 7) (\<lambda>i. draw0 42))))
     = [''ST-1762074000000-42'', ''ST-1762074000000-42'']
   \<and> saveVisit (at_desk ''Radiologist'') ''PT-101'' ''USR-2'' ''2026-11-02T09:00'' (draw0 7)
        (\<lambda>i. draw0 (42 + i))
     = (at_desk ''Radiologist'',
        [Alert ''Access Denied: You don't have permission to create visits.''])"
proof -
  have perm: "hasPermission (at_desk ''Reception'') ''createVisit''"
    by (rule at_desk_simps)
  have patient: "''PT-101'' \<noteq> []" and doctor: "''USR-2'' \<noteq> []" by simp_all
  have queue: "tempQueue (at_desk ''Reception'') \<noteq> []"
    by (simp add: at_desk_simps queue0_def)
  have same: "map s_id (st_studies (fst (saveVisit (at_desk ''Reception'') ''PT-101'' ''USR-2''
       ''2026-11-02T09:00'' (draw0 7) (\<lambda>i. draw0 42))))
     = [''ST-1762074000000-42'', ''ST-1762074000000-42'']"
    by (simp add: saveVisit_state [OF perm patient doctor queue] at_desk_simps ids_new_studies
        queue0_def generateId_def draw0_def show_nat_examples upt_rec)
  have refused: "saveVisit (at_desk ''Radiologist'') ''PT-101'' ''USR-2'' ''2026-11-02T09:00'' (draw0 7)
        (\<lambda>i. draw0 (42 + i))
     = (at_desk ''Radiologist'',
        [Alert ''Access Denied: You don't have permission to create visits.''])"
    by (simp add: saveVisit_def at_desk_simps)
  from same refused show ?thesis by (rule conjI)
qed

section \<open>The moves of the study workflow\<close>

lemma length_update_first [simp]: "length (update_first P f xs) = length xs"
  by (induction xs) auto





















end
